theory Spec2Isabelle
  imports Complex_Main "HOL-Library.Sublist"
begin

section \<open>Python values and exceptions\<close>

text \<open>
  The program is one Python module, \<^verbatim>\<open>S3-to-dynamodb.py\<close>: three helpers
  (\<^verbatim>\<open>process_csv\<close>, \<^verbatim>\<open>safe_decimal\<close>, \<^verbatim>\<open>extract_symbol_timestamp\<close>) and the
  entry point \<^verbatim>\<open>lambda_handler\<close>. Every exception the module can meet is a value
  of \<open>error\<close>; a computation that may raise returns \<open>error + 'a\<close>, with \<open>Inl\<close>
  the exception. The key extractor raises \<^verbatim>\<open>ValueError\<close>; the specification calls
  that failure \<^verbatim>\<open>KeyFormatError\<close>.
\<close>

datatype error = KeyError | IndexError | TypeError | ValueError | AttributeError
  | JSONDecodeError | InvalidOperation | ClientError | UnicodeDecodeError | CsvError

text \<open>
  The values \<^verbatim>\<open>json.loads\<close> produces, which is also what the Lambda runtime hands to
  the handler. A \<^verbatim>\<open>dict\<close> is an association list read with \<open>map_of\<close>. The handler
  never inspects a number: it only matters that a number is neither a string nor a
  container.
\<close>

datatype json = JNull | JBool bool | JNum rat | JStr string | JArr "json list"
  | JObj "(string \<times> json) list"

text \<open>
  A cell of a row of \<^verbatim>\<open>csv.DictReader\<close>: a string, or \<^verbatim>\<open>None\<close> for a field the
  line is too short to hold (\<^verbatim>\<open>restval\<close>). A row maps column names to cells.
\<close>

datatype cell = PyStr string | PyNone

type_synonym row = "string \<rightharpoonup> cell"

fun and_then :: "error + 'a \<Rightarrow> ('a \<Rightarrow> error + 'b) \<Rightarrow> error + 'b" where
  "and_then (Inl e) f = Inl e"
| "and_then (Inr x) f = f x"

text \<open>\<^verbatim>\<open>x[k]\<close> for a string \<open>k\<close>, and \<^verbatim>\<open>x[0]\<close>, on each kind of value.\<close>

fun subscript_key :: "json \<Rightarrow> string \<Rightarrow> error + json" where
  "subscript_key (JObj kvs) k = (case map_of kvs k of None \<Rightarrow> Inl KeyError | Some v \<Rightarrow> Inr v)"
| "subscript_key _ k = Inl TypeError"

fun subscript_0 :: "json \<Rightarrow> error + json" where
  "subscript_0 (JArr xs) = (case xs of [] \<Rightarrow> Inl IndexError | x # _ \<Rightarrow> Inr x)"
| "subscript_0 (JStr s) = (case s of [] \<Rightarrow> Inl IndexError | c # _ \<Rightarrow> Inr (JStr [c]))"
| "subscript_0 (JObj kvs) = Inl KeyError"
| "subscript_0 _ = Inl TypeError"

text \<open>\<^verbatim>\<open>for record in x\<close>: the elements of a list, the keys of a dict, the characters of a string.\<close>

fun iterate :: "json \<Rightarrow> error + json list" where
  "iterate (JArr xs) = Inr xs"
| "iterate (JObj kvs) = Inr (map JStr (remdups (map fst kvs)))"
| "iterate (JStr s) = Inr (map (\<lambda>c. JStr [c]) s)"
| "iterate _ = Inl TypeError"

section \<open>Strings\<close>

text \<open>\<^verbatim>\<open>s.split(sep)\<close> for a one-character separator: never the empty list.\<close>

fun split_on :: "char \<Rightarrow> string \<Rightarrow> string list" where
  "split_on sep [] = [[]]"
| "split_on sep (c # cs) =
     (if c = sep then [] # split_on sep cs
      else (case split_on sep cs of [] \<Rightarrow> [[c]] | p # ps \<Rightarrow> (c # p) # ps))"

text \<open>\<^verbatim>\<open>s.replace(old, new, 1)\<close>: the leftmost occurrence of \<open>old\<close> becomes \<open>new\<close>.\<close>

fun replace_first :: "string \<Rightarrow> string \<Rightarrow> string \<Rightarrow> string" where
  "replace_first old new [] = (if old = [] then new else [])"
| "replace_first old new (c # cs) =
     (if prefix old (c # cs) then new @ drop (length old) (c # cs)
      else c # replace_first old new cs)"

text \<open>\<^verbatim>\<open>str(n)\<close>, which is also how an f-string renders a row index \<open>n\<close>.\<close>

fun str_nat :: "nat \<Rightarrow> string" where
  "str_nat n =
     (if n < 10 then [''0123456789'' ! n]
      else str_nat (n div 10) @ [''0123456789'' ! (n mod 10)])"

declare str_nat.simps [simp del]

text \<open>\<^verbatim>\<open>str(value)\<close>, which is also how an f-string renders a cell.\<close>

fun py_str :: "cell \<Rightarrow> string" where
  "py_str (PyStr s) = s"
| "py_str PyNone = ''None''"

section \<open>Numeric coercion\<close>

text \<open>
  \<^verbatim>\<open>decimal.Decimal\<close> values: a finite number is a sign, a coefficient and an
  exponent (\<^verbatim>\<open>Decimal('12.5')\<close> is sign 0, coefficient 125, exponent -1), and there
  are infinities and (quiet or signalling) NaNs with a payload.
\<close>

datatype decimal = DecFinite bool nat int | DecInfinity bool | DecNaN bool bool nat

text \<open>
  The two constructors of the Python library the module calls on strings are parameters
  of the model: \<open>Decimal_of s\<close> is \<^verbatim>\<open>Decimal(s)\<close> and \<open>int_of s\<close> is \<^verbatim>\<open>int(s)\<close>
  for a string \<open>s\<close>, each either the value or the exception raised. What they accept
  (whitespace, underscores, digits of other scripts, bounds on exponents and on the
  number of digits) is the interpreter's business and differs between versions; the
  module's own code is the same whatever they do.
\<close>

record library =
  Decimal_of :: "string \<Rightarrow> error + decimal"
  int_of :: "string \<Rightarrow> error + int"

text \<open>
  \<^verbatim>\<open>safe_decimal\<close>, lines 18 to 23. The bare \<^verbatim>\<open>except\<close> catches whatever the
  \<^verbatim>\<open>try\<close> raises; the handler itself calls \<^verbatim>\<open>Decimal\<close> on the string \<open>0\<close>,
  whose result is the function's.
\<close>

definition safe_decimal :: "library \<Rightarrow> cell \<Rightarrow> error + decimal" where
  "safe_decimal lib v =
     (case Decimal_of lib (py_str v) of
        Inr d \<Rightarrow> Inr d
      | Inl _ \<Rightarrow> Decimal_of lib ''0'')"

text \<open>
  \<^verbatim>\<open>int(v)\<close> for a cell, line 88: \<^verbatim>\<open>TypeError\<close> on \<^verbatim>\<open>None\<close>, the library's
  answer on a string.
\<close>

fun py_int :: "library \<Rightarrow> cell \<Rightarrow> error + int" where
  "py_int lib PyNone = Inl TypeError"
| "py_int lib (PyStr s) = int_of lib s"

section \<open>The key extractor\<close>

text \<open>
  \<^verbatim>\<open>extract_symbol_timestamp\<close>, lines 25 to 38. Only a string has \<^verbatim>\<open>split\<close>: any
  other value raises \<^verbatim>\<open>AttributeError\<close>. \<^verbatim>\<open>parts[1]\<close> is read under the length
  check; \<^verbatim>\<open>parts[-1]\<close> and \<^verbatim>\<open>split('.')[0]\<close> read lists that are never empty.
\<close>

fun extract_symbol_timestamp :: "json \<Rightarrow> error + (string \<times> string)" where
  "extract_symbol_timestamp (JStr key) =
     (let parts = split_on CHR ''/'' key in
      if length parts < 2 then Inl ValueError
      else
        let symbol = parts ! 1;
            filename = hd (split_on CHR ''.'' (last parts));
            timestamp = replace_first symbol [] filename
        in Inr (symbol, timestamp))"
| "extract_symbol_timestamp _ = Inl AttributeError"

text \<open>
  The same extraction in the words of the specification, for comparison with the code:
  the second segment, the last segment, the stem before the first dot, and the removal
  of the first occurrence of the symbol in the stem.
\<close>

definition second_segment :: "string \<Rightarrow> string" where
  "second_segment key =
     takeWhile (\<lambda>c. c \<noteq> CHR ''/'') (tl (dropWhile (\<lambda>c. c \<noteq> CHR ''/'') key))"

definition last_segment :: "string \<Rightarrow> string" where
  "last_segment key = rev (takeWhile (\<lambda>c. c \<noteq> CHR ''/'') (rev key))"

definition strip_extension :: "string \<Rightarrow> string" where
  "strip_extension name = takeWhile (\<lambda>c. c \<noteq> CHR ''.'') name"

definition first_occurrence :: "string \<Rightarrow> string \<Rightarrow> nat option" where
  "first_occurrence symbol s = find (\<lambda>i. prefix symbol (drop i s)) [0..<Suc (length s)]"

definition remove_first_occurrence :: "string \<Rightarrow> string \<Rightarrow> string" where
  "remove_first_occurrence symbol s =
     (case first_occurrence symbol s of
        None \<Rightarrow> s
      | Some i \<Rightarrow> take i s @ drop (i + length symbol) s)"

section \<open>The services the module calls\<close>

text \<open>
  What the module does not compute itself is a parameter of the model: the JSON
  parser, the object store, the text decoding and CSV reading of the standard library,
  and the table's batch writer. \<open>None\<close> from \<open>json_loads\<close>, \<open>s3_get_object\<close>,
  \<open>decode_utf8\<close> or \<open>csv_DictReader\<close> is the call raising. \<open>batch_put_item sent it\<close> is
  the exception, if any, of \<^verbatim>\<open>batch.put_item(Item=it)\<close> after the calls \<open>sent\<close> of the
  same batch; \<open>batch_exit sent\<close> is the exception, if any, of leaving the
  \<^verbatim>\<open>with\<close> block, where the writer flushes what it still holds.
\<close>

record item =
  item_symbol_timestamp :: string
  item_row_key :: string
  item_symbol :: string
  item_timestamp :: string
  item_date :: cell
  item_open :: decimal
  item_close :: decimal
  item_high :: decimal
  item_low :: decimal
  item_volume :: int

record env =
  json_loads :: "string \<Rightarrow> json option"
  s3_get_object :: "json \<Rightarrow> json \<Rightarrow> string option"
  decode_utf8 :: "string \<Rightarrow> string option"
  splitlines :: "string \<Rightarrow> string list"
  csv_DictReader :: "string list \<Rightarrow> row list option"
  batch_put_item :: "item list \<Rightarrow> item \<Rightarrow> error option"
  batch_exit :: "item list \<Rightarrow> error option"

text \<open>\<^verbatim>\<open>process_csv\<close>, lines 11 to 16.\<close>

definition process_csv :: "env \<Rightarrow> json \<Rightarrow> json \<Rightarrow> error + row list" where
  "process_csv env bucket key =
     (case s3_get_object env bucket key of
        None \<Rightarrow> Inl ClientError
      | Some body \<Rightarrow>
          (case decode_utf8 env body of
             None \<Rightarrow> Inl UnicodeDecodeError
           | Some text \<Rightarrow>
               (case csv_DictReader env (splitlines env text) of
                  None \<Rightarrow> Inl CsvError
                | Some rows \<Rightarrow> Inr rows)))"

section \<open>The batch driver\<close>

text \<open>\<^verbatim>\<open>row[k]\<close>: \<^verbatim>\<open>KeyError\<close> when the file has no such column.\<close>

definition row_get :: "row \<Rightarrow> string \<Rightarrow> error + cell" where
  "row_get r k = (case r k of None \<Rightarrow> Inl KeyError | Some v \<Rightarrow> Inr v)"

text \<open>
  The item of one row, lines 76 to 89: the two keys first, then the fields of the
  dict display from left to right, so the first failure is the one raised.
\<close>

definition build_item ::
  "library \<Rightarrow> string \<Rightarrow> string \<Rightarrow> nat \<Rightarrow> row \<Rightarrow> error + item"
where
  "build_item lib symbol timestamp idx r =
     (let partition_key = symbol @ ''_'' @ timestamp in
      and_then (row_get r ''date'') (\<lambda>d.
      let sort_key = py_str d @ ''_'' @ str_nat idx in
      and_then (row_get r ''date'') (\<lambda>date.
      and_then (and_then (row_get r ''open'') (safe_decimal lib)) (\<lambda>op.
      and_then (and_then (row_get r ''close'') (safe_decimal lib)) (\<lambda>cl.
      and_then (and_then (row_get r ''high'') (safe_decimal lib)) (\<lambda>hi.
      and_then (and_then (row_get r ''low'') (safe_decimal lib)) (\<lambda>lo.
      and_then (and_then (row_get r ''volume'') (py_int lib)) (\<lambda>vol.
      Inr \<lparr>item_symbol_timestamp = partition_key, item_row_key = sort_key,
           item_symbol = symbol, item_timestamp = timestamp, item_date = date,
           item_open = op, item_close = cl, item_high = hi, item_low = lo,
           item_volume = vol\<rparr>))))))))"

text \<open>
  The loop of lines 75 to 89 over \<^verbatim>\<open>enumerate(rows)\<close>. \<open>sent\<close> collects the items of
  the \<^verbatim>\<open>put_item\<close> calls made, in order; the result also holds the exception that
  ended the loop, if one did.
\<close>

fun put_rows ::
  "library \<Rightarrow> env \<Rightarrow> string \<Rightarrow> string \<Rightarrow> (nat \<times> row) list \<Rightarrow> item list \<Rightarrow> item list \<times> error option"
where
  "put_rows lib env symbol timestamp [] sent = (sent, None)"
| "put_rows lib env symbol timestamp ((idx, r) # rest) sent =
     (case build_item lib symbol timestamp idx r of
        Inl e \<Rightarrow> (sent, Some e)
      | Inr it \<Rightarrow>
          (case batch_put_item env sent it of
             Some e \<Rightarrow> (sent @ [it], Some e)
           | None \<Rightarrow> put_rows lib env symbol timestamp rest (sent @ [it])))"

text \<open>
  The \<^verbatim>\<open>with table.batch_writer() as batch\<close> block, lines 74 to 89: the loop, then
  the writer's exit, which runs whether or not the loop raised; an exception of the
  exit replaces the loop's.
\<close>

definition write_rows ::
  "library \<Rightarrow> env \<Rightarrow> string \<Rightarrow> string \<Rightarrow> row list \<Rightarrow> item list \<times> error option"
where
  "write_rows lib env symbol timestamp rows =
     (case put_rows lib env symbol timestamp (enumerate 0 rows) [] of
        (sent, None) \<Rightarrow> (sent, batch_exit env sent)
      | (sent, Some e) \<Rightarrow>
          (sent, Some (case batch_exit env sent of None \<Rightarrow> e | Some e' \<Rightarrow> e')))"

text \<open>
  What a run of the handler has done so far: the two counters, the lines printed, the
  \<^verbatim>\<open>process_csv\<close> calls made (bucket and key) and the \<^verbatim>\<open>put_item\<close> calls made.
\<close>

datatype log_entry =
    ParseFailed error
  | ExtractFailed json error
  | ReadFailed json error
  | Processed json nat
  | InsertFailed json error

record state =
  total_files :: nat
  total_rows :: nat
  printed :: "log_entry list"
  fetches :: "(json \<times> json) list"
  upserts :: "item list"

definition initial_state :: state where
  "initial_state = \<lparr>total_files = 0, total_rows = 0, printed = [], fetches = [], upserts = []\<rparr>"

definition print_line :: "log_entry \<Rightarrow> state \<Rightarrow> state" where
  "print_line l st = st\<lparr>printed := printed st @ [l]\<rparr>"

text \<open>Lines 50 and 51: \<^verbatim>\<open>json.loads(record['body'])\<close>, then \<^verbatim>\<open>['Records'][0]['s3']\<close>.\<close>

definition loads :: "env \<Rightarrow> json \<Rightarrow> error + json" where
  "loads env body =
     (case body of
        JStr s \<Rightarrow> (case json_loads env s of None \<Rightarrow> Inl JSONDecodeError | Some v \<Rightarrow> Inr v)
      | _ \<Rightarrow> Inl TypeError)"

definition first_s3_record :: "json \<Rightarrow> error + json" where
  "first_s3_record s3_event =
     and_then (subscript_key s3_event ''Records'') (\<lambda>rs.
     and_then (subscript_0 rs) (\<lambda>r0. subscript_key r0 ''s3''))"

definition parse_record :: "env \<Rightarrow> json \<Rightarrow> error + json" where
  "parse_record env record =
     and_then (subscript_key record ''body'') (\<lambda>body.
     and_then (loads env body) first_s3_record)"

text \<open>
  Lines 66 to 94 for one file, once the key has been split: the fetch is recorded, then
  either the read fails and is printed, or the rows are written and the file counted
  when the \<^verbatim>\<open>with\<close> block ended without an exception.
\<close>

definition process_file ::
  "library \<Rightarrow> env \<Rightarrow> state \<Rightarrow> json \<Rightarrow> json \<Rightarrow> string \<Rightarrow> string \<Rightarrow> state"
where
  "process_file lib env st bucket key symbol timestamp =
     (let st1 = st\<lparr>fetches := fetches st @ [(bucket, key)]\<rparr> in
      case process_csv env bucket key of
        Inl e \<Rightarrow> print_line (ReadFailed key e) st1
      | Inr rows \<Rightarrow>
          (case write_rows lib env symbol timestamp rows of
             (sent, None) \<Rightarrow>
               print_line (Processed key (length rows))
                 (st1\<lparr>upserts := upserts st1 @ sent,
                      total_files := total_files st1 + 1,
                      total_rows := total_rows st1 + length rows\<rparr>)
           | (sent, Some e) \<Rightarrow>
               print_line (InsertFailed key e) (st1\<lparr>upserts := upserts st1 @ sent\<rparr>)))"

text \<open>
  Lines 56 and 57: the bucket name and the object key of the record, read outside any
  \<^verbatim>\<open>try\<close>.
\<close>

definition file_reference :: "json \<Rightarrow> error + (json \<times> json)" where
  "file_reference s3_record =
     and_then (and_then (subscript_key s3_record ''bucket'') (\<lambda>b. subscript_key b ''name''))
       (\<lambda>bucket.
     and_then (and_then (subscript_key s3_record ''object'') (\<lambda>ob. subscript_key ob ''key''))
       (\<lambda>key. Inr (bucket, key)))"

text \<open>
  The body of the loop of line 47, lines 48 to 94. \<open>Inr\<close> is the state with which the
  loop goes on to the next record; \<open>Inl\<close> is an exception no \<^verbatim>\<open>try\<close> of the body
  covers, which leaves the handler: lines 56 and 57 stand between two \<^verbatim>\<open>try\<close>
  blocks.
\<close>

definition process_record :: "library \<Rightarrow> env \<Rightarrow> state \<Rightarrow> json \<Rightarrow> error + state" where
  "process_record lib env st record =
     (case parse_record env record of
        Inl e \<Rightarrow> Inr (print_line (ParseFailed e) st)
      | Inr s3_record \<Rightarrow>
          and_then (file_reference s3_record) (\<lambda>(bucket, key).
          (case extract_symbol_timestamp key of
             Inl e \<Rightarrow> Inr (print_line (ExtractFailed key e) st)
           | Inr (symbol, timestamp) \<Rightarrow>
               Inr (process_file lib env st bucket key symbol timestamp))))"

fun run_records :: "library \<Rightarrow> env \<Rightarrow> state \<Rightarrow> json list \<Rightarrow> error + state" where
  "run_records lib env st [] = Inr st"
| "run_records lib env st (record # rest) =
     and_then (process_record lib env st record) (\<lambda>st'. run_records lib env st' rest)"

record response =
  statusCode :: nat
  message :: string

text \<open>
  \<^verbatim>\<open>lambda_handler\<close>, lines 40 to 99, on an event that is a dict. The result is the
  dict returned together with what the run did, or the exception that left the handler.
\<close>

definition lambda_handler ::
  "library \<Rightarrow> env \<Rightarrow> (string \<times> json) list \<Rightarrow> error + (response \<times> state)"
where
  "lambda_handler lib env event =
     (case map_of event ''Records'' of
        None \<Rightarrow> Inr (\<lparr>statusCode = 400, message = ''No SQS Records''\<rparr>, initial_state)
      | Some records \<Rightarrow>
          and_then (iterate records) (\<lambda>rs.
          and_then (run_records lib env initial_state rs) (\<lambda>st.
          Inr (\<lparr>statusCode = 200,
                message = ''Processed '' @ str_nat (total_files st) @ '' files with ''
                  @ str_nat (total_rows st) @ '' rows into DynamoDB''\<rparr>, st))))"

section \<open>The table\<close>

text \<open>
  Modelled from the spec: the table is an external store keyed by
  \<open>(symbol_timestamp, row_key)\<close> and written by upsert only, so a later write to a key
  replaces the earlier one.
\<close>

type_synonym table = "(string \<times> string) \<rightharpoonup> item"

definition item_key :: "item \<Rightarrow> string \<times> string" where
  "item_key it = (item_symbol_timestamp it, item_row_key it)"

definition upsert :: "table \<Rightarrow> item \<Rightarrow> table" where
  "upsert t it = t(item_key it \<mapsto> it)"

definition table_after :: "table \<Rightarrow> item list \<Rightarrow> table" where
  "table_after t its = foldl upsert t its"


text \<open>
  A state read as what a run has added: \<open>add_effect d st\<close> is \<open>st\<close> with the counts of
  \<open>d\<close> added and the lines, fetches and upserts of \<open>d\<close> appended.
\<close>

definition add_effect :: "state \<Rightarrow> state \<Rightarrow> state" where
  "add_effect d st =
     \<lparr>total_files = total_files st + total_files d,
      total_rows = total_rows st + total_rows d,
      printed = printed st @ printed d,
      fetches = fetches st @ fetches d,
      upserts = upserts st @ upserts d\<rparr>"

section \<open>An example environment\<close>

text \<open>
  A bucket with two files of three rows each, the second with a volume that is not a
  number in its second row, and the message bodies that name them. The reader of the
  example splits unquoted lines at commas, which is what \<^verbatim>\<open>csv.DictReader\<close> does on
  such lines; every write is accepted.
\<close>

definition lyft_key :: string where
  "lyft_key = ''stocks/LYFT/LYFT2025-11-17_15-26-55.csv''"

definition uber_key :: string where
  "uber_key = ''stocks/UBER/UBER2025-11-17_15-26-55.csv''"

definition lyft_lines :: "string list" where
  "lyft_lines =
     [''date,open,close,high,low,volume'',
      ''2025-11-14,12.5,13,13.5,12,100'',
      ''2025-11-15,13,abc,14,12.75,250'',
      ''2025-11-16,14,14.5,15,,75'']"

definition uber_lines :: "string list" where
  "uber_lines =
     [''date,open,close,high,low,volume'',
      ''2025-11-14,80,81,82,79,1000'',
      ''2025-11-15,81,82,83,80,not-a-number'',
      ''2025-11-16,82,83,84,81,3000'']"

definition join_lines :: "string list \<Rightarrow> string" where
  "join_lines ls = concat (map (\<lambda>l. l @ [CHR 0x0A]) ls)"

definition rows_of_lines :: "string list \<Rightarrow> row list" where
  "rows_of_lines ls =
     map (\<lambda>l. map_of (zip (split_on CHR '','' (hd ls)) (map PyStr (split_on CHR '','' l))))
       (tl ls)"

definition example_reader :: "string list \<Rightarrow> row list option" where
  "example_reader ls = (if ls = [] then Some [] else Some (rows_of_lines ls))"

definition lyft_record :: json where
  "lyft_record =
     JObj [(''s3'', JObj [(''bucket'', JObj [(''name'', JStr ''stock-bucket'')]),
                          (''object'', JObj [(''key'', JStr lyft_key)])])]"

definition uber_record :: json where
  "uber_record =
     JObj [(''s3'', JObj [(''bucket'', JObj [(''name'', JStr ''stock-bucket'')]),
                          (''object'', JObj [(''key'', JStr uber_key)])])]"

definition lyft_body :: string where
  \<open>lyft_body = ''{"Records": [{"s3": {"bucket": {"name": "stock-bucket"}, "object": {"key": "stocks/LYFT/LYFT2025-11-17_15-26-55.csv"}}}]}''\<close>

definition uber_body :: string where
  \<open>uber_body = ''{"Records": [{"s3": {"bucket": {"name": "stock-bucket"}, "object": {"key": "stocks/UBER/UBER2025-11-17_15-26-55.csv"}}}]}''\<close>

definition both_body :: string where
  \<open>both_body = ''{"Records": [{"s3": {"bucket": {"name": "stock-bucket"}, "object": {"key": "stocks/LYFT/LYFT2025-11-17_15-26-55.csv"}}}, {"s3": {"bucket": {"name": "stock-bucket"}, "object": {"key": "stocks/UBER/UBER2025-11-17_15-26-55.csv"}}}]}''\<close>

definition no_bucket_body :: string where
  \<open>no_bucket_body = ''{"Records": [{"s3": {}}]}''\<close>

definition example_loads :: "string \<Rightarrow> json option" where
  "example_loads =
     map_of [(lyft_body, JObj [(''Records'', JArr [lyft_record])]),
             (uber_body, JObj [(''Records'', JArr [uber_record])]),
             (both_body, JObj [(''Records'', JArr [lyft_record, uber_record])]),
             (no_bucket_body, JObj [(''Records'', JArr [JObj [(''s3'', JObj [])]])])]"

definition example_get_object :: "json \<Rightarrow> json \<Rightarrow> string option" where
  "example_get_object bucket key =
     (if bucket = JStr ''stock-bucket''
      then map_of [(JStr lyft_key, join_lines lyft_lines),
                   (JStr uber_key, join_lines uber_lines)] key
      else None)"

text \<open>
  The library of the example knows the numbers of the two files and reads them as
  Python does; it rejects every other string, among them \<^verbatim>\<open>abc\<close>, the empty
  string and \<^verbatim>\<open>not-a-number\<close>, which Python rejects too.
\<close>

definition example_Decimal :: "string \<Rightarrow> error + decimal" where
  "example_Decimal s =
     (case map_of [(''0'', DecFinite False 0 0), (''12'', DecFinite False 12 0),
                   (''12.5'', DecFinite False 125 (- 1)), (''12.75'', DecFinite False 1275 (- 2)),
                   (''13'', DecFinite False 13 0), (''13.5'', DecFinite False 135 (- 1)),
                   (''14'', DecFinite False 14 0), (''14.5'', DecFinite False 145 (- 1)),
                   (''15'', DecFinite False 15 0), (''79'', DecFinite False 79 0),
                   (''80'', DecFinite False 80 0), (''81'', DecFinite False 81 0),
                   (''82'', DecFinite False 82 0), (''83'', DecFinite False 83 0),
                   (''84'', DecFinite False 84 0)] s of
        None \<Rightarrow> Inl InvalidOperation
      | Some d \<Rightarrow> Inr d)"

definition example_int :: "string \<Rightarrow> error + int" where
  "example_int s =
     (case map_of [(''75'', 75), (''100'', 100), (''250'', 250), (''1000'', 1000),
                   (''3000'', 3000)] s of
        None \<Rightarrow> Inl ValueError
      | Some n \<Rightarrow> Inr n)"

definition example_lib :: library where
  "example_lib = \<lparr>Decimal_of = example_Decimal, int_of = example_int\<rparr>"

definition example_env :: env where
  "example_env =
     \<lparr>json_loads = example_loads,
      s3_get_object = example_get_object,
      decode_utf8 = Some,
      splitlines = (\<lambda>text. butlast (split_on (CHR 0x0A) text)),
      csv_DictReader = example_reader,
      batch_put_item = (\<lambda>sent it. None),
      batch_exit = (\<lambda>sent. None)\<rparr>"

definition sqs_record :: "string \<Rightarrow> json" where
  "sqs_record body = JObj [(''body'', JStr body)]"

section \<open>Facts about the string functions\<close>

lemma split_on_nonempty: "split_on sep s \<noteq> []"
  by (induction s) (auto split: list.splits)

lemma length_split_on: "length (split_on sep s) = Suc (length (filter (\<lambda>c. c = sep) s))"
  by (induction s) (auto split: list.splits simp: split_on_nonempty)

lemma hd_split_on: "hd (split_on sep s) = takeWhile (\<lambda>c. c \<noteq> sep) s"
  by (induction s) (auto split: list.splits simp: split_on_nonempty)

lemma split_on_unfold:
  "sep \<in> set s \<Longrightarrow>
   split_on sep s =
     takeWhile (\<lambda>c. c \<noteq> sep) s # split_on sep (tl (dropWhile (\<lambda>c. c \<noteq> sep) s))"
  by (induction s) (auto split: list.splits simp: split_on_nonempty)

lemma split_on_no_sep: "sep \<notin> set s \<Longrightarrow> split_on sep s = [s]"
  by (induction s) auto

lemma split_on_many: "sep \<in> set s \<Longrightarrow> \<exists>p q qs. split_on sep s = p # q # qs"
proof -
  assume "sep \<in> set s"
  then have "filter (\<lambda>c. c = sep) s \<noteq> []"
    by (simp add: filter_empty_conv)
  then have "2 \<le> length (split_on sep s)"
    by (cases "filter (\<lambda>c. c = sep) s") (simp_all add: length_split_on)
  then show ?thesis
    by (cases "split_on sep s" rule: remdups_adj.cases) auto
qed

lemma last_split_on: "last (split_on sep s) = rev (takeWhile (\<lambda>c. c \<noteq> sep) (rev s))"
proof (induction s)
  case Nil
  show ?case by simp
next
  case (Cons c cs)
  show ?case
  proof (cases "sep \<in> set cs")
    case True
    then obtain p q qs where "split_on sep cs = p # q # qs"
      using split_on_many by blast
    with True Cons show ?thesis
      by (auto simp: takeWhile_append)
  next
    case False
    then show ?thesis
      by (auto simp: split_on_no_sep takeWhile_append)
  qed
qed

lemma second_split_on:
  "sep \<in> set s \<Longrightarrow>
   split_on sep s ! 1 = takeWhile (\<lambda>c. c \<noteq> sep) (tl (dropWhile (\<lambda>c. c \<noteq> sep) s))"
proof -
  assume "sep \<in> set s"
  then obtain rest where "split_on sep s = takeWhile (\<lambda>c. c \<noteq> sep) s # rest"
    and "rest = split_on sep (tl (dropWhile (\<lambda>c. c \<noteq> sep) s))"
    using split_on_unfold by blast
  moreover from this have "rest \<noteq> []"
    by (simp add: split_on_nonempty)
  ultimately have "split_on sep s ! 1 = hd (split_on sep (tl (dropWhile (\<lambda>c. c \<noteq> sep) s)))"
    by (simp add: hd_conv_nth)
  then show ?thesis
    by (simp only: hd_split_on)
qed

lemma length_split_on_less2: "(length (split_on sep s) < 2) = (sep \<notin> set s)"
  using split_on_many [of sep s] split_on_no_sep [of sep s] by auto

lemma extract_symbol_timestamp_eq:
  "extract_symbol_timestamp (JStr key) =
     (if CHR ''/'' \<in> set key
      then Inr (second_segment key,
                replace_first (second_segment key) [] (strip_extension (last_segment key)))
      else Inl ValueError)"
proof (cases "CHR ''/'' \<in> set key")
  case True
  then show ?thesis
    using second_split_on [of "CHR ''/''" key]
    by (simp add: Let_def length_split_on_less2 last_split_on hd_split_on
        second_segment_def last_segment_def strip_extension_def)
next
  case False
  then show ?thesis
    by (simp add: Let_def length_split_on_less2)
qed

lemma replace_first_at:
  "i \<le> length s \<Longrightarrow> prefix symbol (drop i s) \<Longrightarrow>
   (\<forall>j<i. \<not> prefix symbol (drop j s)) \<Longrightarrow>
   replace_first symbol [] s = take i s @ drop (i + length symbol) s"
proof (induction s arbitrary: i)
  case Nil
  then show ?case by simp
next
  case (Cons c cs)
  show ?case
  proof (cases i)
    case 0
    with Cons.prems show ?thesis by simp
  next
    case (Suc k)
    with Cons.prems have no: "\<not> prefix symbol (c # cs)"
      by (metis drop0 zero_less_Suc)
    have "\<forall>j<k. \<not> prefix symbol (drop j cs)"
      using Cons.prems(3) Suc by (metis Suc_less_eq drop_Suc_Cons)
    with Cons.prems Suc have "replace_first symbol [] cs = take k cs @ drop (k + length symbol) cs"
      by (intro Cons.IH) simp_all
    with no Suc show ?thesis by simp
  qed
qed

lemma replace_first_absent:
  "(\<forall>j\<le>length s. \<not> prefix symbol (drop j s)) \<Longrightarrow> replace_first symbol [] s = s"
proof (induction s)
  case Nil
  then show ?case by simp
next
  case (Cons c cs)
  have "\<not> prefix symbol (c # cs)"
    using Cons.prems by (metis drop0 le0)
  moreover have "\<forall>j\<le>length cs. \<not> prefix symbol (drop j cs)"
    using Cons.prems by (metis Suc_le_mono drop_Suc_Cons length_Cons)
  ultimately show ?case
    using Cons.IH by simp
qed

lemma first_occurrence_Some:
  "first_occurrence symbol s = Some i \<longleftrightarrow>
     i \<le> length s \<and> prefix symbol (drop i s) \<and> (\<forall>j<i. \<not> prefix symbol (drop j s))"
proof -
  have nth: "\<And>k. k < Suc (length s) \<Longrightarrow> [0..<Suc (length s)] ! k = k"
    by (metis add_0 nth_upt)
  show ?thesis
    unfolding first_occurrence_def find_Some_iff
  proof (intro iffI; elim exE conjE)
    fix k
    assume k: "k < length [0..<Suc (length s)]"
      and p: "prefix symbol (drop ([0..<Suc (length s)] ! k) s)"
      and e: "i = [0..<Suc (length s)] ! k"
      and m: "\<forall>j<k. \<not> prefix symbol (drop ([0..<Suc (length s)] ! j) s)"
    from k have ki: "i = k" using e nth by simp
    have "\<forall>j<i. \<not> prefix symbol (drop j s)"
    proof (intro allI impI)
      fix j assume "j < i"
      with ki k m nth [of j] show "\<not> prefix symbol (drop j s)" by auto
    qed
    with k p e ki show "i \<le> length s \<and> prefix symbol (drop i s) \<and> (\<forall>j<i. \<not> prefix symbol (drop j s))"
      by auto
  next
    assume i: "i \<le> length s" and p: "prefix symbol (drop i s)"
      and m: "\<forall>j<i. \<not> prefix symbol (drop j s)"
    have "i < length [0..<Suc (length s)]" using i by simp
    moreover have "[0..<Suc (length s)] ! i = i" using i nth by simp
    moreover have "\<forall>j<i. \<not> prefix symbol (drop ([0..<Suc (length s)] ! j) s)"
      using m i nth by auto
    ultimately show "\<exists>k<length [0..<Suc (length s)].
        prefix symbol (drop ([0..<Suc (length s)] ! k) s) \<and> i = [0..<Suc (length s)] ! k \<and>
        (\<forall>j<k. \<not> prefix symbol (drop ([0..<Suc (length s)] ! j) s))"
      using p by metis
  qed
qed

lemma first_occurrence_None:
  "first_occurrence symbol s = None \<longleftrightarrow> (\<forall>j\<le>length s. \<not> prefix symbol (drop j s))"
  unfolding first_occurrence_def find_None_iff
  by (auto simp: less_Suc_eq_le le_less)

lemma replace_first_remove:
  "replace_first symbol [] s = remove_first_occurrence symbol s"
proof (cases "first_occurrence symbol s")
  case None
  then have "replace_first symbol [] s = s"
    by (intro replace_first_absent) (simp add: first_occurrence_None)
  with None show ?thesis
    by (simp add: remove_first_occurrence_def)
next
  case (Some i)
  then have "replace_first symbol [] s = take i s @ drop (i + length symbol) s"
    by (intro replace_first_at) (simp_all add: first_occurrence_Some)
  with Some show ?thesis
    by (simp add: remove_first_occurrence_def)
qed

lemma first_occurrence_decompose:
  assumes "first_occurrence symbol s = Some i"
  shows "s = take i s @ symbol @ drop (i + length symbol) s"
proof -
  from assms have "prefix symbol (drop i s)"
    by (simp add: first_occurrence_Some)
  then obtain rest where rest: "drop i s = symbol @ rest"
    by (auto simp: prefix_def)
  then have "drop (i + length symbol) s = rest"
    by (metis add.commute append_eq_conv_conj drop_drop)
  with rest show ?thesis
    by (metis append_take_drop_id)
qed

section \<open>The key extractor: claims\<close>

text \<open>
  C2. For every key string, extraction splits the key on the slash and fails with the
  key format error (Python's \<^verbatim>\<open>ValueError\<close>) exactly when fewer than two segments
  result, that is, when the key holds no slash. Otherwise the symbol is the second
  segment, and the timestamp is the last segment cut at its first dot with the first
  occurrence of the symbol removed. The key \<^verbatim>\<open>stocks/LYFT/LYFT2025-11-17_15-26-55.csv\<close>
  gives the symbol \<^verbatim>\<open>LYFT\<close> and the timestamp \<^verbatim>\<open>2025-11-17_15-26-55\<close>; a key with no
  slash fails.
\<close>

theorem extract_symbol_timestamp_contract:
  "extract_symbol_timestamp (JStr key) =
     (if length (split_on CHR ''/'' key) < 2 then Inl ValueError
      else Inr (split_on CHR ''/'' key ! 1,
                remove_first_occurrence (split_on CHR ''/'' key ! 1)
                  (strip_extension (last (split_on CHR ''/'' key)))))
   \<and> (length (split_on CHR ''/'' key) < 2) = (CHR ''/'' \<notin> set key)
   \<and> (if CHR ''/'' \<in> set key then split_on CHR ''/'' key ! 1 = second_segment key
       else extract_symbol_timestamp (JStr key) = Inl ValueError)
   \<and> last (split_on CHR ''/'' key) = last_segment key
   \<and> strip_extension (last_segment key) = hd (split_on CHR ''.'' (last_segment key))
   \<and> extract_symbol_timestamp (JStr ''stocks/LYFT/LYFT2025-11-17_15-26-55.csv'') =
       Inr (''LYFT'', ''2025-11-17_15-26-55'')
   \<and> extract_symbol_timestamp (JStr ''stocks'') = Inl ValueError"
proof -
  have "extract_symbol_timestamp (JStr key) =
     (if length (split_on CHR ''/'' key) < 2 then Inl ValueError
      else Inr (split_on CHR ''/'' key ! 1,
                remove_first_occurrence (split_on CHR ''/'' key ! 1)
                  (strip_extension (last (split_on CHR ''/'' key)))))"
    by (simp add: Let_def replace_first_remove hd_split_on strip_extension_def)
  moreover have "(length (split_on CHR ''/'' key) < 2) = (CHR ''/'' \<notin> set key)"
    by (rule length_split_on_less2)
  moreover have "if CHR ''/'' \<in> set key then split_on CHR ''/'' key ! 1 = second_segment key
       else extract_symbol_timestamp (JStr key) = Inl ValueError"
    using second_split_on [of "CHR ''/''" key]
    by (simp add: second_segment_def extract_symbol_timestamp_eq
        del: extract_symbol_timestamp.simps)
  moreover have "last (split_on CHR ''/'' key) = last_segment key"
    by (simp add: last_split_on last_segment_def)
  moreover have "strip_extension (last_segment key) = hd (split_on CHR ''.'' (last_segment key))"
    by (simp add: hd_split_on strip_extension_def)
  moreover have "extract_symbol_timestamp (JStr ''stocks/LYFT/LYFT2025-11-17_15-26-55.csv'') =
       Inr (''LYFT'', ''2025-11-17_15-26-55'')"
    by (simp add: Let_def)
  moreover have "extract_symbol_timestamp (JStr ''stocks'') = Inl ValueError"
    by (simp add: Let_def)
  ultimately show ?thesis
    by blast
qed

text \<open>
  C7. When the stem of the file name does not begin with the symbol but holds it
  further on, the timestamp is the stem with that first occurrence cut out, wherever it
  stands: the stem is \<open>pre @ symbol @ post\<close> with \<open>pre\<close> not empty and as short as
  can be, and the timestamp is \<open>pre @ post\<close>.
\<close>

theorem timestamp_removes_first_occurrence_anywhere:
  assumes "extract_symbol_timestamp (JStr key) = Inr (symbol, timestamp)"
    and "\<not> prefix symbol (strip_extension (last_segment key))"
    and "first_occurrence symbol (strip_extension (last_segment key)) = Some i"
  shows "0 < i
    \<and> strip_extension (last_segment key) =
        take i (strip_extension (last_segment key)) @ symbol @
        drop (i + length symbol) (strip_extension (last_segment key))
    \<and> timestamp =
        take i (strip_extension (last_segment key)) @
        drop (i + length symbol) (strip_extension (last_segment key))"
proof -
  let ?stem = "strip_extension (last_segment key)"
  have "0 < i"
  proof (rule ccontr)
    assume "\<not> 0 < i"
    then have "i = 0" by simp
    with assms(3) have "prefix symbol ?stem"
      by (simp add: first_occurrence_Some)
    with assms(2) show False by simp
  qed
  moreover have "?stem = take i ?stem @ symbol @ drop (i + length symbol) ?stem"
    using assms(3) by (rule first_occurrence_decompose)
  moreover have "timestamp = take i ?stem @ drop (i + length symbol) ?stem"
  proof -
    from assms(1) have "timestamp = remove_first_occurrence symbol ?stem"
      by (auto simp: extract_symbol_timestamp_eq replace_first_remove
          simp del: extract_symbol_timestamp.simps split: if_splits)
    with assms(3) show ?thesis
      by (simp add: remove_first_occurrence_def)
  qed
  ultimately show ?thesis
    by blast
qed

theorem timestamp_removes_first_occurrence_anywhere_witness:
  "extract_symbol_timestamp (JStr ''stocks/LYFT/2025LYFT-11LYFT.csv'') =
     Inr (''LYFT'', ''2025-11LYFT'')
   \<and> \<not> prefix ''LYFT'' (strip_extension (last_segment ''stocks/LYFT/2025LYFT-11LYFT.csv''))
   \<and> first_occurrence ''LYFT''
       (strip_extension (last_segment ''stocks/LYFT/2025LYFT-11LYFT.csv'')) = Some 4
   \<and> ''2025-11LYFT'' =
       take 4 (strip_extension (last_segment ''stocks/LYFT/2025LYFT-11LYFT.csv'')) @
       drop (4 + length ''LYFT'')
         (strip_extension (last_segment ''stocks/LYFT/2025LYFT-11LYFT.csv''))"
proof -
  have stem: "strip_extension (last_segment ''stocks/LYFT/2025LYFT-11LYFT.csv'') =
      ''2025LYFT-11LYFT''"
    by (simp add: strip_extension_def last_segment_def)
  have h1: "extract_symbol_timestamp (JStr ''stocks/LYFT/2025LYFT-11LYFT.csv'') =
      Inr (''LYFT'', ''2025-11LYFT'')"
    by (simp add: Let_def)
  have h2: "\<not> prefix ''LYFT'' (strip_extension (last_segment ''stocks/LYFT/2025LYFT-11LYFT.csv''))"
    by (simp add: stem)
  have h3: "first_occurrence ''LYFT''
      (strip_extension (last_segment ''stocks/LYFT/2025LYFT-11LYFT.csv'')) = Some 4"
    unfolding stem by code_simp
  from timestamp_removes_first_occurrence_anywhere [OF h1 h2 h3] h1 h2 h3
  show ?thesis
    by blast
qed

text \<open>
  C10. A key with at least two segments never makes the extraction raise. When the
  symbol does not occur in the stem at all, the timestamp is the whole stem. When the
  key has exactly two segments, the symbol is the whole second segment, which is also
  the file name with its extension: for \<^verbatim>\<open>stocks/LYFT.csv\<close> the symbol is
  \<^verbatim>\<open>LYFT.csv\<close>.
\<close>

theorem extract_total_on_two_segments:
  assumes "2 \<le> length (split_on CHR ''/'' key)"
  shows "\<exists>symbol timestamp.
      extract_symbol_timestamp (JStr key) = Inr (symbol, timestamp)
      \<and> (first_occurrence symbol (strip_extension (last_segment key)) = None
          \<longrightarrow> timestamp = strip_extension (last_segment key))
      \<and> (length (split_on CHR ''/'' key) = 2 \<longrightarrow> symbol = last_segment key)"
proof -
  from assms have slash: "CHR ''/'' \<in> set key"
    using length_split_on_less2 [of "CHR ''/''" key] by simp
  let ?symbol = "second_segment key"
  let ?stem = "strip_extension (last_segment key)"
  have result: "extract_symbol_timestamp (JStr key) =
      Inr (?symbol, remove_first_occurrence ?symbol ?stem)"
    using slash
    by (simp add: extract_symbol_timestamp_eq replace_first_remove
        del: extract_symbol_timestamp.simps)
  have absent: "first_occurrence ?symbol ?stem = None
      \<longrightarrow> remove_first_occurrence ?symbol ?stem = ?stem"
    by (simp add: remove_first_occurrence_def)
  have two: "length (split_on CHR ''/'' key) = 2 \<longrightarrow> ?symbol = last_segment key"
  proof
    assume "length (split_on CHR ''/'' key) = 2"
    then obtain p q where pq: "split_on CHR ''/'' key = [p, q]"
      by (cases "split_on CHR ''/'' key" rule: remdups_adj.cases) auto
    have "?symbol = split_on CHR ''/'' key ! 1"
      using slash second_split_on [of "CHR ''/''" key] by (simp add: second_segment_def)
    also have "\<dots> = last (split_on CHR ''/'' key)"
      using pq by simp
    also have "\<dots> = last_segment key"
      by (simp add: last_split_on last_segment_def)
    finally show "?symbol = last_segment key" .
  qed
  show ?thesis
  proof (intro exI conjI)
    show "extract_symbol_timestamp (JStr key) =
        Inr (?symbol, remove_first_occurrence ?symbol ?stem)"
      by (fact result)
    show "first_occurrence ?symbol ?stem = None
        \<longrightarrow> remove_first_occurrence ?symbol ?stem = ?stem"
      by (fact absent)
    show "length (split_on CHR ''/'' key) = 2 \<longrightarrow> ?symbol = last_segment key"
      by (fact two)
  qed
qed

theorem extract_total_on_two_segments_witness:
  "2 \<le> length (split_on CHR ''/'' ''stocks/LYFT.csv'')
   \<and> extract_symbol_timestamp (JStr ''stocks/LYFT.csv'') = Inr (''LYFT.csv'', ''LYFT'')
   \<and> first_occurrence ''LYFT.csv'' (strip_extension (last_segment ''stocks/LYFT.csv'')) = None
   \<and> length (split_on CHR ''/'' ''stocks/LYFT.csv'') = 2
   \<and> ''LYFT.csv'' = last_segment ''stocks/LYFT.csv''
   \<and> ''LYFT'' = strip_extension (last_segment ''stocks/LYFT.csv'')"
proof -
  have h: "2 \<le> length (split_on CHR ''/'' ''stocks/LYFT.csv'')"
    by simp
  have e: "extract_symbol_timestamp (JStr ''stocks/LYFT.csv'') = Inr (''LYFT.csv'', ''LYFT'')"
    by (simp add: Let_def)
  have n: "first_occurrence ''LYFT.csv'' (strip_extension (last_segment ''stocks/LYFT.csv'')) = None"
    by code_simp
  have l: "length (split_on CHR ''/'' ''stocks/LYFT.csv'') = 2"
    by simp
  from extract_total_on_two_segments [OF h] e n l
  show ?thesis
    by auto
qed

section \<open>Numeric coercion: claims\<close>



lemma safe_decimal_total:
  "Decimal_of lib ''0'' = Inr z \<Longrightarrow> \<exists>d. safe_decimal lib v = Inr d"
  by (cases "Decimal_of lib (py_str v)") (simp_all add: safe_decimal_def)



section \<open>Facts about the batch driver\<close>

lemma and_then_Inr: "and_then m f = Inr y \<longleftrightarrow> (\<exists>x. m = Inr x \<and> f x = Inr y)"
  by (cases m) auto

lemma and_then_Inl: "and_then m f = Inl e \<longleftrightarrow> m = Inl e \<or> (\<exists>x. m = Inr x \<and> f x = Inl e)"
  by (cases m) auto

lemma row_get_Inr: "row_get r k = Inr v \<longleftrightarrow> r k = Some v"
  by (simp add: row_get_def split: option.splits)

lemma build_item_Inr:
  assumes "build_item lib symbol timestamp idx r = Inr it"
  shows "item_symbol_timestamp it = symbol @ ''_'' @ timestamp"
    and "item_symbol it = symbol" and "item_timestamp it = timestamp"
    and "\<exists>d. r ''date'' = Some d \<and> item_date it = d
           \<and> item_row_key it = py_str d @ ''_'' @ str_nat idx"
    and "\<exists>c. r ''volume'' = Some c \<and> py_int lib c = Inr (item_volume it)"
  using assms
  by (auto simp: build_item_def Let_def and_then_Inr row_get_Inr)

lemma build_item_total:
  assumes "Decimal_of lib ''0'' = Inr z"
    and "r ''date'' = Some d" and "r ''open'' = Some op" and "r ''close'' = Some cl"
    and "r ''high'' = Some hi" and "r ''low'' = Some lo"
    and "r ''volume'' = Some c" and "py_int lib c = Inr n"
  shows "\<exists>it. build_item lib symbol timestamp idx r = Inr it"
proof -
  obtain a where a: "safe_decimal lib op = Inr a"
    using safe_decimal_total [OF assms(1)] by blast
  obtain b where b: "safe_decimal lib cl = Inr b"
    using safe_decimal_total [OF assms(1)] by blast
  obtain h where h: "safe_decimal lib hi = Inr h"
    using safe_decimal_total [OF assms(1)] by blast
  obtain l where l: "safe_decimal lib lo = Inr l"
    using safe_decimal_total [OF assms(1)] by blast
  show ?thesis
    using assms(2-8) a b h l by (simp add: build_item_def row_get_def)
qed

lemma build_item_bad_volume:
  assumes "r ''volume'' = Some c" and "py_int lib c = Inl e"
  shows "\<exists>e'. build_item lib symbol timestamp idx r = Inl e'"
proof (cases "build_item lib symbol timestamp idx r")
  case (Inl e')
  then show ?thesis by blast
next
  case (Inr it)
  then have "\<exists>c. r ''volume'' = Some c \<and> py_int lib c = Inr (item_volume it)"
    by (rule build_item_Inr)
  with assms show ?thesis by auto
qed

lemma put_rows_sent:
  "put_rows lib env symbol timestamp xs sent = (sent', res) \<Longrightarrow>
   \<exists>new. sent' = sent @ new \<and> length new \<le> length xs"
proof (induction xs arbitrary: sent)
  case Nil
  then show ?case by simp
next
  case (Cons x xs)
  obtain idx r where x: "x = (idx, r)" by (cases x)
  show ?case
  proof (cases "build_item lib symbol timestamp idx r")
    case (Inl e)
    with Cons.prems x show ?thesis by simp
  next
    case (Inr it)
    show ?thesis
    proof (cases "batch_put_item env sent it")
      case (Some e)
      with Cons.prems x Inr show ?thesis by auto
    next
      case None
      with Cons.prems x Inr
      have "put_rows lib env symbol timestamp xs (sent @ [it]) = (sent', res)" by simp
      from Cons.IH [OF this] obtain new where "sent' = (sent @ [it]) @ new"
        and "length new \<le> length xs" by blast
      then have "sent' = sent @ (it # new) \<and> length (it # new) \<le> length (x # xs)"
        by simp
      then show ?thesis by blast
    qed
  qed
qed

lemma put_rows_None:
  "put_rows lib env symbol timestamp xs sent = (sent', None) \<Longrightarrow>
   \<exists>new. sent' = sent @ new
     \<and> map (\<lambda>(idx, r). build_item lib symbol timestamp idx r) xs = map Inr new"
proof (induction xs arbitrary: sent)
  case Nil
  then show ?case by simp
next
  case (Cons x xs)
  obtain idx r where x: "x = (idx, r)" by (cases x)
  show ?case
  proof (cases "build_item lib symbol timestamp idx r")
    case (Inl e)
    with Cons.prems x show ?thesis by simp
  next
    case (Inr it)
    show ?thesis
    proof (cases "batch_put_item env sent it")
      case (Some e)
      with Cons.prems x Inr show ?thesis by simp
    next
      case None
      with Cons.prems x Inr
      have "put_rows lib env symbol timestamp xs (sent @ [it]) = (sent', None)" by simp
      from Cons.IH [OF this] obtain new where "sent' = (sent @ [it]) @ new"
        and "map (\<lambda>(idx, r). build_item lib symbol timestamp idx r) xs = map Inr new" by blast
      with x Inr have "sent' = sent @ (it # new)
        \<and> map (\<lambda>(idx, r). build_item lib symbol timestamp idx r) (x # xs) = map Inr (it # new)"
        by simp
      then show ?thesis by blast
    qed
  qed
qed

lemma put_rows_stops:
  "k < length xs \<Longrightarrow> build_item lib symbol timestamp (fst (xs ! k)) (snd (xs ! k)) = Inl e \<Longrightarrow>
   put_rows lib env symbol timestamp xs sent = (sent', res) \<Longrightarrow>
   res \<noteq> None \<and> length sent' \<le> length sent + k"
proof (induction xs arbitrary: sent k)
  case Nil
  then show ?case by simp
next
  case (Cons x xs)
  obtain idx r where x: "x = (idx, r)" by (cases x)
  show ?case
  proof (cases "build_item lib symbol timestamp idx r")
    case (Inl e')
    with Cons.prems x show ?thesis by auto
  next
    case (Inr it)
    with Cons.prems(2) x obtain j where k: "k = Suc j"
      by (cases k) auto
    show ?thesis
    proof (cases "batch_put_item env sent it")
      case (Some e')
      with Cons.prems(3) x Inr have "res = Some e'" and "sent' = sent @ [it]"
        by simp_all
      with k show ?thesis by simp
    next
      case None
      with Cons.prems x Inr
      have run: "put_rows lib env symbol timestamp xs (sent @ [it]) = (sent', res)" by simp
      have "j < length xs" using Cons.prems(1) k by simp
      moreover have "build_item lib symbol timestamp (fst (xs ! j)) (snd (xs ! j)) = Inl e"
        using Cons.prems(2) k by simp
      ultimately have "res \<noteq> None \<and> length sent' \<le> length (sent @ [it]) + j"
        using run by (rule Cons.IH)
      with k show ?thesis by simp
    qed
  qed
qed

lemma write_rows_None:
  assumes "write_rows lib env symbol timestamp rows = (sent, None)"
  shows "map (\<lambda>(idx, r). build_item lib symbol timestamp idx r) (enumerate 0 rows) = map Inr sent"
proof -
  obtain sent' res where run: "put_rows lib env symbol timestamp (enumerate 0 rows) [] = (sent', res)"
    by (cases "put_rows lib env symbol timestamp (enumerate 0 rows) []")
  with assms have "res = None" and "sent' = sent"
    by (auto simp: write_rows_def split: option.splits)
  with run put_rows_None [of lib env symbol timestamp "enumerate 0 rows" "[]" sent]
  show ?thesis by auto
qed

lemma write_rows_items:
  assumes "write_rows lib env symbol timestamp rows = (sent, None)"
  shows "length sent = length rows"
    and "\<forall>i<length rows. build_item lib symbol timestamp i (rows ! i) = Inr (sent ! i)"
proof -
  let ?build = "\<lambda>(idx, r). build_item lib symbol timestamp idx r"
  have eq: "map ?build (enumerate 0 rows) = map Inr sent"
    using assms by (rule write_rows_None)
  then have "length (map ?build (enumerate 0 rows)) = length (map Inr sent :: (error + item) list)"
    by simp
  then show len: "length sent = length rows"
    by simp
  show "\<forall>i<length rows. build_item lib symbol timestamp i (rows ! i) = Inr (sent ! i)"
  proof (intro allI impI)
    fix i assume i: "i < length rows"
    then have "map ?build (enumerate 0 rows) ! i = build_item lib symbol timestamp i (rows ! i)"
      by (simp add: nth_enumerate_eq)
    moreover have "(map Inr sent :: (error + item) list) ! i = Inr (sent ! i)"
      using i len by simp
    ultimately show "build_item lib symbol timestamp i (rows ! i) = Inr (sent ! i)"
      using eq by simp
  qed
qed

lemma put_rows_leading:
  "put_rows lib env symbol timestamp xs sent = (sent', res) \<Longrightarrow>
   \<exists>new. sent' = sent @ new \<and> length new \<le> length xs
     \<and> (\<forall>i<length new. build_item lib symbol timestamp (fst (xs ! i)) (snd (xs ! i)) = Inr (new ! i))"
proof (induction xs arbitrary: sent)
  case Nil
  then show ?case by simp
next
  case (Cons x xs)
  obtain idx r where x: "x = (idx, r)" by (cases x)
  show ?case
  proof (cases "build_item lib symbol timestamp idx r")
    case (Inl e)
    with Cons.prems x show ?thesis by simp
  next
    case (Inr it)
    show ?thesis
    proof (cases "batch_put_item env sent it")
      case (Some e)
      with Cons.prems x Inr have "sent' = sent @ [it]" by simp
      moreover have "\<forall>i<length [it].
          build_item lib symbol timestamp (fst ((x # xs) ! i)) (snd ((x # xs) ! i)) = Inr ([it] ! i)"
        using x Inr by simp
      ultimately show ?thesis
        by (intro exI [of _ "[it]"]) simp
    next
      case None
      with Cons.prems x Inr
      have "put_rows lib env symbol timestamp xs (sent @ [it]) = (sent', res)" by simp
      from Cons.IH [OF this] obtain new where new: "sent' = (sent @ [it]) @ new"
        "length new \<le> length xs"
        "\<forall>i<length new. build_item lib symbol timestamp (fst (xs ! i)) (snd (xs ! i)) = Inr (new ! i)"
        by blast
      have "\<forall>i<length (it # new).
          build_item lib symbol timestamp (fst ((x # xs) ! i)) (snd ((x # xs) ! i))
            = Inr ((it # new) ! i)"
      proof (intro allI impI)
        fix i assume "i < length (it # new)"
        then show "build_item lib symbol timestamp (fst ((x # xs) ! i)) (snd ((x # xs) ! i))
            = Inr ((it # new) ! i)"
          using x Inr new(3) by (cases i) simp_all
      qed
      with new(1,2) show ?thesis
        by (intro exI [of _ "it # new"]) simp
    qed
  qed
qed

lemma write_rows_leading:
  assumes "write_rows lib env symbol timestamp rows = (sent, res)"
  shows "length sent \<le> length rows"
    and "\<forall>i<length sent. build_item lib symbol timestamp i (rows ! i) = Inr (sent ! i)"
proof -
  obtain sent' res' where run:
    "put_rows lib env symbol timestamp (enumerate 0 rows) [] = (sent', res')"
    by (cases "put_rows lib env symbol timestamp (enumerate 0 rows) []")
  with assms have same: "sent' = sent"
    by (auto simp: write_rows_def split: option.splits)
  from put_rows_leading [OF run] same
  have len: "length sent \<le> length (enumerate 0 rows)"
    and items: "\<forall>i<length sent. build_item lib symbol timestamp (fst (enumerate 0 rows ! i))
        (snd (enumerate 0 rows ! i)) = Inr (sent ! i)"
    by auto
  from len show "length sent \<le> length rows" by simp
  show "\<forall>i<length sent. build_item lib symbol timestamp i (rows ! i) = Inr (sent ! i)"
  proof (intro allI impI)
    fix i assume "i < length sent"
    with len items show "build_item lib symbol timestamp i (rows ! i) = Inr (sent ! i)"
      by (auto simp: nth_enumerate_eq)
  qed
qed

lemma write_rows_bad_volume:
  assumes "k < length rows" and "(rows ! k) ''volume'' = Some c" and "py_int lib c = Inl e"
  shows "\<exists>sent e'. write_rows lib env symbol timestamp rows = (sent, Some e') \<and> length sent \<le> k"
proof -
  obtain sent res where run: "put_rows lib env symbol timestamp (enumerate 0 rows) [] = (sent, res)"
    by (cases "put_rows lib env symbol timestamp (enumerate 0 rows) []")
  obtain e' where "build_item lib symbol timestamp k (rows ! k) = Inl e'"
    using build_item_bad_volume [of "rows ! k" c lib e symbol timestamp k] assms(2,3) by blast
  then have bad: "build_item lib symbol timestamp (fst (enumerate 0 rows ! k))
      (snd (enumerate 0 rows ! k)) = Inl e'"
    using assms(1) by (simp add: nth_enumerate_eq)
  have "k < length (enumerate 0 rows)"
    using assms(1) by simp
  then have "res \<noteq> None \<and> length sent \<le> length ([] :: item list) + k"
    using bad run by (rule put_rows_stops)
  then obtain e'' where "res = Some e''" and "length sent \<le> k"
    by auto
  with run show ?thesis
    by (auto simp: write_rows_def split: option.splits)
qed

lemma process_file_counted:
  assumes "process_csv env bucket key = Inr rows"
    and "total_files (process_file lib env st bucket key symbol timestamp) = Suc (total_files st)"
  shows "\<exists>sent. write_rows lib env symbol timestamp rows = (sent, None)
      \<and> upserts (process_file lib env st bucket key symbol timestamp) = upserts st @ sent
      \<and> total_rows (process_file lib env st bucket key symbol timestamp) =
          total_rows st + length rows"
proof -
  obtain sent res where w: "write_rows lib env symbol timestamp rows = (sent, res)"
    by (cases "write_rows lib env symbol timestamp rows")
  show ?thesis
  proof (cases res)
    case None
    with w assms(1) show ?thesis
      by (simp add: process_file_def print_line_def)
  next
    case (Some e)
    with w assms show ?thesis
      by (simp add: process_file_def print_line_def)
  qed
qed

lemma process_file_bad_volume:
  assumes "process_csv env bucket key = Inr rows"
    and "k < length rows" and "(rows ! k) ''volume'' = Some c" and "py_int lib c = Inl e"
  shows "\<exists>sent e'. length sent \<le> k
      \<and> (\<forall>i<length sent. build_item lib symbol timestamp i (rows ! i) = Inr (sent ! i))
      \<and> (\<forall>st. process_file lib env st bucket key symbol timestamp =
          st\<lparr>fetches := fetches st @ [(bucket, key)], upserts := upserts st @ sent,
             printed := printed st @ [InsertFailed key e']\<rparr>)"
proof -
  obtain sent e' where w: "write_rows lib env symbol timestamp rows = (sent, Some e')"
    and len: "length sent \<le> k"
    using write_rows_bad_volume [OF assms(2,3,4)] by blast
  have "\<forall>i<length sent. build_item lib symbol timestamp i (rows ! i) = Inr (sent ! i)"
    using w by (rule write_rows_leading)
  moreover have "\<forall>st. process_file lib env st bucket key symbol timestamp =
          st\<lparr>fetches := fetches st @ [(bucket, key)], upserts := upserts st @ sent,
             printed := printed st @ [InsertFailed key e']\<rparr>"
    using w assms(1) by (simp add: process_file_def print_line_def)
  ultimately show ?thesis
    using len by blast
qed

lemma process_record_file:
  assumes "parse_record env record = Inr s3_record"
    and "file_reference s3_record = Inr (bucket, key)"
    and "extract_symbol_timestamp key = Inr (symbol, timestamp)"
  shows "process_record lib env st record = Inr (process_file lib env st bucket key symbol timestamp)"
  using assms by (simp add: process_record_def)

lemma run_records_append:
  "run_records lib env st (xs @ ys) =
     and_then (run_records lib env st xs) (\<lambda>st'. run_records lib env st' ys)"
proof (induction xs arbitrary: st)
  case Nil
  show ?case by simp
next
  case (Cons x xs)
  show ?case
    by (cases "process_record lib env st x") (simp_all add: Cons.IH)
qed

lemma add_effect_initial: "add_effect d initial_state = d"
  by (simp add: add_effect_def initial_state_def)

lemma add_effect_assoc: "add_effect d2 (add_effect d1 st) = add_effect (add_effect d2 d1) st"
  by (simp add: add_effect_def)

lemma process_file_effect:
  "process_file lib env st bucket key symbol timestamp =
     add_effect (process_file lib env initial_state bucket key symbol timestamp) st"
  by (simp add: process_file_def print_line_def add_effect_def initial_state_def Let_def
      split: sum.splits prod.splits option.splits)

lemma process_record_effect:
  "process_record lib env st record =
     map_sum id (\<lambda>d. add_effect d st) (process_record lib env initial_state record)"
proof (cases "parse_record env record")
  case (Inl e)
  then show ?thesis
    by (simp add: process_record_def print_line_def add_effect_def initial_state_def)
next
  case (Inr s3_record)
  show ?thesis
  proof (cases "file_reference s3_record")
    case (Inl e)
    with Inr show ?thesis
      by (simp add: process_record_def)
  next
    case ref: (Inr bk)
    obtain bucket key where bk: "bk = (bucket, key)" by (cases bk)
    show ?thesis
    proof (cases "extract_symbol_timestamp key")
      case (Inl e)
      with Inr ref bk show ?thesis
        by (simp add: process_record_def print_line_def add_effect_def initial_state_def)
    next
      case ext: (Inr sy)
      obtain symbol timestamp where "sy = (symbol, timestamp)" by (cases sy)
      with Inr ref bk ext show ?thesis
        using process_file_effect [of lib env st bucket key symbol timestamp]
        by (simp add: process_record_def)
    qed
  qed
qed

lemma run_records_effect:
  "run_records lib env st rs =
     map_sum id (\<lambda>d. add_effect d st) (run_records lib env initial_state rs)"
proof (induction rs arbitrary: st)
  case Nil
  show ?case
    by (simp add: add_effect_def initial_state_def)
next
  case (Cons r rs)
  show ?case
  proof (cases "process_record lib env initial_state r")
    case (Inl e)
    then show ?thesis
      using process_record_effect [of lib env st r] by simp
  next
    case (Inr d)
    then have step: "process_record lib env st r = Inr (add_effect d st)"
      using process_record_effect [of lib env st r] by simp
    show ?thesis
    proof (cases "run_records lib env initial_state rs")
      case (Inl e)
      with Inr step Cons.IH [of d] Cons.IH [of "add_effect d st"] show ?thesis
        by simp
    next
      case rest: (Inr d')
      with Inr step Cons.IH [of d] Cons.IH [of "add_effect d st"] show ?thesis
        by (simp add: add_effect_assoc)
    qed
  qed
qed

lemma run_records_around:
  assumes "\<And>s. process_record lib env s r = Inr (f s)"
  shows "run_records lib env initial_state (pre @ r # post) =
     (case run_records lib env initial_state pre of
        Inl x \<Rightarrow> Inl x
      | Inr st1 \<Rightarrow>
          map_sum id (\<lambda>d. add_effect d (f st1)) (run_records lib env initial_state post))"
    and "run_records lib env initial_state (pre @ post) =
     (case run_records lib env initial_state pre of
        Inl x \<Rightarrow> Inl x
      | Inr st1 \<Rightarrow>
          map_sum id (\<lambda>d. add_effect d st1) (run_records lib env initial_state post))"
proof -
  show "run_records lib env initial_state (pre @ r # post) =
     (case run_records lib env initial_state pre of
        Inl x \<Rightarrow> Inl x
      | Inr st1 \<Rightarrow>
          map_sum id (\<lambda>d. add_effect d (f st1)) (run_records lib env initial_state post))"
  proof (cases "run_records lib env initial_state pre")
    case (Inl x)
    then show ?thesis by (simp add: run_records_append)
  next
    case (Inr st1)
    then show ?thesis
      using run_records_effect [of lib env "f st1" post]
      by (simp add: run_records_append assms)
  qed
  show "run_records lib env initial_state (pre @ post) =
     (case run_records lib env initial_state pre of
        Inl x \<Rightarrow> Inl x
      | Inr st1 \<Rightarrow>
          map_sum id (\<lambda>d. add_effect d st1) (run_records lib env initial_state post))"
  proof (cases "run_records lib env initial_state pre")
    case (Inl x)
    then show ?thesis by (simp add: run_records_append)
  next
    case (Inr st1)
    then show ?thesis
      using run_records_effect [of lib env st1 post]
      by (simp add: run_records_append)
  qed
qed

lemma lambda_handler_Records:
  "map_of event ''Records'' = Some (JArr rs) \<Longrightarrow>
   lambda_handler lib env event =
     and_then (run_records lib env initial_state rs) (\<lambda>st.
       Inr (\<lparr>statusCode = 200,
             message = ''Processed '' @ str_nat (total_files st) @ '' files with ''
               @ str_nat (total_rows st) @ '' rows into DynamoDB''\<rparr>, st))"
  by (simp add: lambda_handler_def)

lemma table_after_snoc: "table_after t (xs @ [x]) = upsert (table_after t xs) x"
  by (simp add: table_after_def)

lemma table_after_lookup:
  "table_after t xs k =
     (case find (\<lambda>it. item_key it = k) (rev xs) of None \<Rightarrow> t k | Some it \<Rightarrow> Some it)"
proof (induction xs rule: rev_induct)
  case Nil
  show ?case by (simp add: table_after_def)
next
  case (snoc x xs)
  then show ?case
    by (simp add: table_after_snoc upsert_def)
qed

lemma table_after_twice: "table_after (table_after t xs) xs = table_after t xs"
proof
  fix k
  show "table_after (table_after t xs) xs k = table_after t xs k"
    by (simp add: table_after_lookup [of _ xs] split: option.splits)
qed

section \<open>An exception that leaves the handler\<close>

lemma parse_failure_is_skipped:
  "parse_record env record = Inl e \<Longrightarrow>
   process_record lib env st record = Inr (print_line (ParseFailed e) st)"
  by (simp add: process_record_def)

lemma unguarded_file_reference_aborts:
  "parse_record env record = Inr s3_record \<Longrightarrow> file_reference s3_record = Inl e \<Longrightarrow>
   run_records lib env st (record # rest) = Inl e"
  by (simp add: process_record_def)

text \<open>
  C1 does not hold of the code. A record whose body is valid JSON and holds
  \<^verbatim>\<open>Records[0].s3\<close>, but with no bucket in it, passes the \<^verbatim>\<open>try\<close> of lines 49 to
  54; the lookups of lines 56 and 57 then raise \<^verbatim>\<open>KeyError\<close> outside any
  \<^verbatim>\<open>try\<close>, and the exception leaves the handler: no summary is returned and the
  record after it, which names a good file, is never processed.
\<close>

theorem missing_bucket_escapes_handler:
  "example_loads no_bucket_body = Some (JObj [(''Records'', JArr [JObj [(''s3'', JObj [])]])])
   \<and> lambda_handler example_lib example_env
       [(''Records'', JArr [sqs_record no_bucket_body, sqs_record lyft_body])] = Inl KeyError"
  by code_simp

section \<open>The batch driver: claims\<close>

lemmas example_defs = example_lib_def example_Decimal_def example_int_def example_env_def example_loads_def example_get_object_def
  example_reader_def join_lines_def lyft_lines_def uber_lines_def lyft_key_def uber_key_def
  lyft_record_def uber_record_def sqs_record_def

lemma example_lyft_csv:
  "process_csv example_env (JStr ''stock-bucket'') (JStr lyft_key) =
     Inr (rows_of_lines lyft_lines)"
  by (simp add: process_csv_def example_defs)

lemma example_uber_csv:
  "process_csv example_env (JStr ''stock-bucket'') (JStr uber_key) =
     Inr (rows_of_lines uber_lines)"
  by (simp add: process_csv_def example_defs)

text \<open>
  C5. A file that was fetched as \<open>n\<close> rows and is counted as processed has had exactly
  \<open>n\<close> upserts submitted, in the order of its rows: the \<open>i\<close>-th of them (from zero)
  has the partition key \<open>symbol_timestamp\<close> and the sort key \<open>date_i\<close>, made of the
  date of row \<open>i\<close> and the index, so all of them share the partition key.
\<close>

theorem file_upserts_in_order:
  assumes "process_csv env bucket key = Inr rows"
    and "total_files (process_file lib env st bucket key symbol timestamp) = Suc (total_files st)"
  shows "\<exists>sent.
      upserts (process_file lib env st bucket key symbol timestamp) = upserts st @ sent
      \<and> length sent = length rows
      \<and> (\<forall>i<length rows.
            item_symbol_timestamp (sent ! i) = symbol @ ''_'' @ timestamp
            \<and> (\<exists>d. (rows ! i) ''date'' = Some d
                  \<and> item_row_key (sent ! i) = py_str d @ ''_'' @ str_nat i))"
proof -
  obtain sent where w: "write_rows lib env symbol timestamp rows = (sent, None)"
    and u: "upserts (process_file lib env st bucket key symbol timestamp) = upserts st @ sent"
    using process_file_counted [OF assms] by blast
  have len: "length sent = length rows"
    using w by (rule write_rows_items)
  have items: "\<forall>i<length rows. build_item lib symbol timestamp i (rows ! i) = Inr (sent ! i)"
    using w by (rule write_rows_items)
  have "\<forall>i<length rows.
      item_symbol_timestamp (sent ! i) = symbol @ ''_'' @ timestamp
      \<and> (\<exists>d. (rows ! i) ''date'' = Some d
            \<and> item_row_key (sent ! i) = py_str d @ ''_'' @ str_nat i)"
  proof (intro allI impI)
    fix i assume "i < length rows"
    with items have b: "build_item lib symbol timestamp i (rows ! i) = Inr (sent ! i)"
      by simp
    from build_item_Inr(1) [OF b] build_item_Inr(4) [OF b]
    show "item_symbol_timestamp (sent ! i) = symbol @ ''_'' @ timestamp
      \<and> (\<exists>d. (rows ! i) ''date'' = Some d
            \<and> item_row_key (sent ! i) = py_str d @ ''_'' @ str_nat i)"
      by blast
  qed
  with u len show ?thesis by blast
qed

theorem file_upserts_in_order_witness:
  "process_csv example_env (JStr ''stock-bucket'') (JStr lyft_key) = Inr (rows_of_lines lyft_lines)
   \<and> total_files (process_file example_lib example_env initial_state (JStr ''stock-bucket'') (JStr lyft_key)
        ''LYFT'' ''2025-11-17_15-26-55'') = Suc (total_files initial_state)
   \<and> length (rows_of_lines lyft_lines) = 3
   \<and> map item_key (upserts (process_file example_lib example_env initial_state (JStr ''stock-bucket'')
        (JStr lyft_key) ''LYFT'' ''2025-11-17_15-26-55'')) =
       [(''LYFT_2025-11-17_15-26-55'', ''2025-11-14_0''),
        (''LYFT_2025-11-17_15-26-55'', ''2025-11-15_1''),
        (''LYFT_2025-11-17_15-26-55'', ''2025-11-16_2'')]
   \<and> (\<exists>sent.
        upserts (process_file example_lib example_env initial_state (JStr ''stock-bucket'') (JStr lyft_key)
          ''LYFT'' ''2025-11-17_15-26-55'') = upserts initial_state @ sent
        \<and> length sent = length (rows_of_lines lyft_lines)
        \<and> (\<forall>i<length (rows_of_lines lyft_lines).
              item_symbol_timestamp (sent ! i) = ''LYFT'' @ ''_'' @ ''2025-11-17_15-26-55''
              \<and> (\<exists>d. (rows_of_lines lyft_lines ! i) ''date'' = Some d
                    \<and> item_row_key (sent ! i) = py_str d @ ''_'' @ str_nat i)))"
proof -
  have h1: "process_csv example_env (JStr ''stock-bucket'') (JStr lyft_key) =
      Inr (rows_of_lines lyft_lines)"
    by (rule example_lyft_csv)
  have h2: "total_files (process_file example_lib example_env initial_state (JStr ''stock-bucket'')
      (JStr lyft_key) ''LYFT'' ''2025-11-17_15-26-55'') = Suc (total_files initial_state)"
    by code_simp
  have n: "length (rows_of_lines lyft_lines) = 3"
    by code_simp
  have keys: "map item_key (upserts (process_file example_lib example_env initial_state (JStr ''stock-bucket'')
        (JStr lyft_key) ''LYFT'' ''2025-11-17_15-26-55'')) =
       [(''LYFT_2025-11-17_15-26-55'', ''2025-11-14_0''),
        (''LYFT_2025-11-17_15-26-55'', ''2025-11-15_1''),
        (''LYFT_2025-11-17_15-26-55'', ''2025-11-16_2'')]"
    by code_simp
  from file_upserts_in_order [OF h1 h2] h1 h2 n keys
  show ?thesis
    by (intro conjI)
qed

text \<open>
  C3. When the volume of some row of a file is not an integer (\<^verbatim>\<open>int\<close> raises on it),
  the file fails: the rows from that one on are not submitted (the upserts made for the
  file are those of leading rows only, fewer than the position of the bad row allows), a
  failure line is printed, and neither counter moves. The rest of the batch is
  processed as before: the handler answers a batch that holds the file exactly as it
  answers the batch without it, and what it fetches, writes and prints for the other
  files is what it fetches, writes and prints for them in the batch without the file,
  with the failed file's fetch, its leading upserts and its failure line in between.
\<close>

theorem bad_volume_fails_only_its_file:
  assumes "parse_record env r = Inr s3_record"
    and "file_reference s3_record = Inr (bucket, key)"
    and "extract_symbol_timestamp key = Inr (symbol, timestamp)"
    and "process_csv env bucket key = Inr rows"
    and "k < length rows" and "(rows ! k) ''volume'' = Some c" and "py_int lib c = Inl e"
    and "map_of event ''Records'' = Some (JArr (pre @ r # post))"
    and "map_of event' ''Records'' = Some (JArr (pre @ post))"
  shows "\<exists>sent e'.
      length sent \<le> k
    \<and> (\<forall>i<length sent. build_item lib symbol timestamp i (rows ! i) = Inr (sent ! i))
    \<and> (\<exists>st'. process_record lib env st r = Inr st'
          \<and> total_files st' = total_files st \<and> total_rows st' = total_rows st
          \<and> fetches st' = fetches st @ [(bucket, key)]
          \<and> upserts st' = upserts st @ sent
          \<and> printed st' = printed st @ [InsertFailed key e'])
    \<and> map_sum id fst (lambda_handler lib env event) =
        map_sum id fst (lambda_handler lib env event')
    \<and> (\<forall>resp stB. lambda_handler lib env event' = Inr (resp, stB) \<longrightarrow>
          (\<exists>stA st1 u f p.
              run_records lib env initial_state pre = Inr st1
            \<and> lambda_handler lib env event = Inr (resp, stA)
            \<and> total_files stA = total_files stB \<and> total_rows stA = total_rows stB
            \<and> upserts stB = upserts st1 @ u \<and> upserts stA = upserts st1 @ sent @ u
            \<and> fetches stB = fetches st1 @ f
            \<and> fetches stA = fetches st1 @ [(bucket, key)] @ f
            \<and> printed stB = printed st1 @ p
            \<and> printed stA = printed st1 @ [InsertFailed key e'] @ p))"
proof -
  obtain sent e' where len: "length sent \<le> k"
    and leading: "\<forall>i<length sent. build_item lib symbol timestamp i (rows ! i) = Inr (sent ! i)"
    and failed: "\<forall>s. process_file lib env s bucket key symbol timestamp =
          s\<lparr>fetches := fetches s @ [(bucket, key)], upserts := upserts s @ sent,
            printed := printed s @ [InsertFailed key e']\<rparr>"
    using process_file_bad_volume [OF assms(4,5,6,7)] by blast
  let ?f = "\<lambda>s. s\<lparr>fetches := fetches s @ [(bucket, key)], upserts := upserts s @ sent,
            printed := printed s @ [InsertFailed key e']\<rparr>"
  have step: "process_record lib env s r = Inr (?f s)" for s
    using failed by (simp add: process_record_file [OF assms(1,2,3)])
  have with_file: "run_records lib env initial_state (pre @ r # post) =
     (case run_records lib env initial_state pre of
        Inl x \<Rightarrow> Inl x
      | Inr st1 \<Rightarrow>
          map_sum id (\<lambda>d. add_effect d (?f st1)) (run_records lib env initial_state post))"
    using step by (rule run_records_around(1))
  have without: "run_records lib env initial_state (pre @ post) =
     (case run_records lib env initial_state pre of
        Inl x \<Rightarrow> Inl x
      | Inr st1 \<Rightarrow>
          map_sum id (\<lambda>d. add_effect d st1) (run_records lib env initial_state post))"
    using step by (rule run_records_around(2))
  have one: "\<exists>st'. process_record lib env st r = Inr st'
          \<and> total_files st' = total_files st \<and> total_rows st' = total_rows st
          \<and> fetches st' = fetches st @ [(bucket, key)]
          \<and> upserts st' = upserts st @ sent
          \<and> printed st' = printed st @ [InsertFailed key e']"
    using step [of st] by simp
  have answer: "map_sum id fst (lambda_handler lib env event) =
        map_sum id fst (lambda_handler lib env event')"
    unfolding lambda_handler_Records [OF assms(8)] lambda_handler_Records [OF assms(9)]
      with_file without
    by (cases "run_records lib env initial_state pre";
        cases "run_records lib env initial_state post")
       (simp_all add: add_effect_def)
  have states: "\<forall>resp stB. lambda_handler lib env event' = Inr (resp, stB) \<longrightarrow>
          (\<exists>stA st1 u f p.
              run_records lib env initial_state pre = Inr st1
            \<and> lambda_handler lib env event = Inr (resp, stA)
            \<and> total_files stA = total_files stB \<and> total_rows stA = total_rows stB
            \<and> upserts stB = upserts st1 @ u \<and> upserts stA = upserts st1 @ sent @ u
            \<and> fetches stB = fetches st1 @ f
            \<and> fetches stA = fetches st1 @ [(bucket, key)] @ f
            \<and> printed stB = printed st1 @ p
            \<and> printed stA = printed st1 @ [InsertFailed key e'] @ p)"
  proof (intro allI impI)
    fix resp stB
    assume ret: "lambda_handler lib env event' = Inr (resp, stB)"
    then obtain st1 d where pre: "run_records lib env initial_state pre = Inr st1"
      and post: "run_records lib env initial_state post = Inr d"
      and stB: "stB = add_effect d st1"
      unfolding lambda_handler_Records [OF assms(9)] without
      by (cases "run_records lib env initial_state pre";
          cases "run_records lib env initial_state post") auto
    have A: "lambda_handler lib env event = Inr (resp, add_effect d (?f st1))"
      using ret pre post stB
      unfolding lambda_handler_Records [OF assms(8)] lambda_handler_Records [OF assms(9)]
        with_file without
      by (auto simp: add_effect_def)
    show "\<exists>stA st1 u f p.
              run_records lib env initial_state pre = Inr st1
            \<and> lambda_handler lib env event = Inr (resp, stA)
            \<and> total_files stA = total_files stB \<and> total_rows stA = total_rows stB
            \<and> upserts stB = upserts st1 @ u \<and> upserts stA = upserts st1 @ sent @ u
            \<and> fetches stB = fetches st1 @ f
            \<and> fetches stA = fetches st1 @ [(bucket, key)] @ f
            \<and> printed stB = printed st1 @ p
            \<and> printed stA = printed st1 @ [InsertFailed key e'] @ p"
    proof (intro exI conjI)
      show "run_records lib env initial_state pre = Inr st1" by (fact pre)
      show "lambda_handler lib env event = Inr (resp, add_effect d (?f st1))" by (fact A)
      show "total_files (add_effect d (?f st1)) = total_files stB"
        by (simp add: stB add_effect_def)
      show "total_rows (add_effect d (?f st1)) = total_rows stB"
        by (simp add: stB add_effect_def)
      show "upserts stB = upserts st1 @ upserts d"
        by (simp add: stB add_effect_def)
      show "upserts (add_effect d (?f st1)) = upserts st1 @ sent @ upserts d"
        by (simp add: add_effect_def)
      show "fetches stB = fetches st1 @ fetches d"
        by (simp add: stB add_effect_def)
      show "fetches (add_effect d (?f st1)) = fetches st1 @ [(bucket, key)] @ fetches d"
        by (simp add: add_effect_def)
      show "printed stB = printed st1 @ printed d"
        by (simp add: stB add_effect_def)
      show "printed (add_effect d (?f st1)) = printed st1 @ [InsertFailed key e'] @ printed d"
        by (simp add: add_effect_def)
    qed
  qed
  from len leading one answer states show ?thesis
    by blast
qed

theorem bad_volume_fails_only_its_file_witness:
  "parse_record example_env (sqs_record uber_body) =
     Inr (JObj [(''bucket'', JObj [(''name'', JStr ''stock-bucket'')]),
                (''object'', JObj [(''key'', JStr uber_key)])])
   \<and> file_reference (JObj [(''bucket'', JObj [(''name'', JStr ''stock-bucket'')]),
                           (''object'', JObj [(''key'', JStr uber_key)])]) =
       Inr (JStr ''stock-bucket'', JStr uber_key)
   \<and> extract_symbol_timestamp (JStr uber_key) = Inr (''UBER'', ''2025-11-17_15-26-55'')
   \<and> process_csv example_env (JStr ''stock-bucket'') (JStr uber_key) = Inr (rows_of_lines uber_lines)
   \<and> 1 < length (rows_of_lines uber_lines)
   \<and> (rows_of_lines uber_lines ! 1) ''volume'' = Some (PyStr ''not-a-number'')
   \<and> py_int example_lib (PyStr ''not-a-number'') = Inl ValueError
   \<and> map_sum id fst (lambda_handler example_lib example_env
        [(''Records'', JArr ([sqs_record lyft_body] @ sqs_record uber_body # [sqs_record lyft_body]))])
     = map_sum id fst (lambda_handler example_lib example_env
        [(''Records'', JArr ([sqs_record lyft_body] @ [sqs_record lyft_body]))])
   \<and> map_sum id (\<lambda>(resp, st). (resp, map item_key (upserts st), printed st))
        (lambda_handler example_lib example_env
          [(''Records'',
            JArr ([sqs_record lyft_body] @ sqs_record uber_body # [sqs_record lyft_body]))])
     = Inr (\<lparr>statusCode = 200, message = ''Processed 2 files with 6 rows into DynamoDB''\<rparr>,
            [(''LYFT_2025-11-17_15-26-55'', ''2025-11-14_0''),
             (''LYFT_2025-11-17_15-26-55'', ''2025-11-15_1''),
             (''LYFT_2025-11-17_15-26-55'', ''2025-11-16_2''),
             (''UBER_2025-11-17_15-26-55'', ''2025-11-14_0''),
             (''LYFT_2025-11-17_15-26-55'', ''2025-11-14_0''),
             (''LYFT_2025-11-17_15-26-55'', ''2025-11-15_1''),
             (''LYFT_2025-11-17_15-26-55'', ''2025-11-16_2'')],
            [Processed (JStr lyft_key) 3, InsertFailed (JStr uber_key) ValueError,
             Processed (JStr lyft_key) 3])"
proof -
  have h1: "parse_record example_env (sqs_record uber_body) =
     Inr (JObj [(''bucket'', JObj [(''name'', JStr ''stock-bucket'')]),
                (''object'', JObj [(''key'', JStr uber_key)])])"
    by code_simp
  have h2: "file_reference (JObj [(''bucket'', JObj [(''name'', JStr ''stock-bucket'')]),
                           (''object'', JObj [(''key'', JStr uber_key)])]) =
       Inr (JStr ''stock-bucket'', JStr uber_key)"
    by code_simp
  have h3: "extract_symbol_timestamp (JStr uber_key) = Inr (''UBER'', ''2025-11-17_15-26-55'')"
    by code_simp
  have h4: "process_csv example_env (JStr ''stock-bucket'') (JStr uber_key) =
      Inr (rows_of_lines uber_lines)"
    by (rule example_uber_csv)
  have h5: "1 < length (rows_of_lines uber_lines)"
    by code_simp
  have h6: "(rows_of_lines uber_lines ! 1) ''volume'' = Some (PyStr ''not-a-number'')"
    by code_simp
  have h7: "py_int example_lib (PyStr ''not-a-number'') = Inl ValueError"
    by code_simp
  have h8: "map_of [(''Records'',
      JArr ([sqs_record lyft_body] @ sqs_record uber_body # [sqs_record lyft_body]))] ''Records''
      = Some (JArr ([sqs_record lyft_body] @ sqs_record uber_body # [sqs_record lyft_body]))"
    by simp
  have h9: "map_of [(''Records'', JArr ([sqs_record lyft_body] @ [sqs_record lyft_body]))]
      ''Records'' = Some (JArr ([sqs_record lyft_body] @ [sqs_record lyft_body]))"
    by simp
  have run: "map_sum id (\<lambda>(resp, st). (resp, map item_key (upserts st), printed st))
        (lambda_handler example_lib example_env
          [(''Records'',
            JArr ([sqs_record lyft_body] @ sqs_record uber_body # [sqs_record lyft_body]))])
     = Inr (\<lparr>statusCode = 200, message = ''Processed 2 files with 6 rows into DynamoDB''\<rparr>,
            [(''LYFT_2025-11-17_15-26-55'', ''2025-11-14_0''),
             (''LYFT_2025-11-17_15-26-55'', ''2025-11-15_1''),
             (''LYFT_2025-11-17_15-26-55'', ''2025-11-16_2''),
             (''UBER_2025-11-17_15-26-55'', ''2025-11-14_0''),
             (''LYFT_2025-11-17_15-26-55'', ''2025-11-14_0''),
             (''LYFT_2025-11-17_15-26-55'', ''2025-11-15_1''),
             (''LYFT_2025-11-17_15-26-55'', ''2025-11-16_2'')],
            [Processed (JStr lyft_key) 3, InsertFailed (JStr uber_key) ValueError,
             Processed (JStr lyft_key) 3])"
    by code_simp
  from bad_volume_fails_only_its_file
    [OF h1 h2 h3 h4 h5 h6 h7 h8 h9, where st = initial_state]
  have "map_sum id fst (lambda_handler example_lib example_env
        [(''Records'', JArr ([sqs_record lyft_body] @ sqs_record uber_body # [sqs_record lyft_body]))])
     = map_sum id fst (lambda_handler example_lib example_env
        [(''Records'', JArr ([sqs_record lyft_body] @ [sqs_record lyft_body]))])"
    by blast
  with h1 h2 h3 h4 h5 h6 h7 run show ?thesis
    by (intro conjI)
qed

text \<open>
  C4. The handler answers with status 400 and the message \<^verbatim>\<open>No SQS Records\<close> exactly
  when the event has no \<^verbatim>\<open>Records\<close> entry, and then it has done nothing: nothing
  fetched, written or printed. An event whose \<^verbatim>\<open>Records\<close> list is empty is answered
  with status 200 and a summary of 0 files and 0 rows. Whenever the handler returns for
  an event with a \<^verbatim>\<open>Records\<close> entry, the status is 200 and the message is
  \<^verbatim>\<open>Processed <files> files with <rows> rows into DynamoDB\<close> with the two counters.
\<close>

theorem lambda_handler_status:
  "(map_of event ''Records'' = None) =
     (lambda_handler lib env event =
        Inr (\<lparr>statusCode = 400, message = ''No SQS Records''\<rparr>,
             \<lparr>total_files = 0, total_rows = 0, printed = [], fetches = [], upserts = []\<rparr>))
   \<and> (map_of event ''Records'' = None) =
       (\<exists>resp st. lambda_handler lib env event = Inr (resp, st) \<and> statusCode resp = 400)
   \<and> (map_of event ''Records'' = Some (JArr []) \<longrightarrow>
        lambda_handler lib env event =
          Inr (\<lparr>statusCode = 200,
                message = ''Processed 0 files with 0 rows into DynamoDB''\<rparr>,
               \<lparr>total_files = 0, total_rows = 0, printed = [], fetches = [], upserts = []\<rparr>))
   \<and> (\<forall>resp st. lambda_handler lib env event = Inr (resp, st) \<longrightarrow>
        map_of event ''Records'' \<noteq> None \<longrightarrow>
          statusCode resp = 200
          \<and> message resp = ''Processed '' @ str_nat (total_files st) @ '' files with ''
               @ str_nat (total_rows st) @ '' rows into DynamoDB'')"
proof -
  have present: "statusCode resp = 200
      \<and> message resp = ''Processed '' @ str_nat (total_files st) @ '' files with ''
           @ str_nat (total_rows st) @ '' rows into DynamoDB''"
    if "lambda_handler lib env event = Inr (resp, st)" and "map_of event ''Records'' = Some records"
    for resp st records
    using that by (auto simp: lambda_handler_def and_then_Inr)
  have absent: "lambda_handler lib env event =
        Inr (\<lparr>statusCode = 400, message = ''No SQS Records''\<rparr>,
             \<lparr>total_files = 0, total_rows = 0, printed = [], fetches = [], upserts = []\<rparr>)"
    if "map_of event ''Records'' = None"
    using that by (simp add: lambda_handler_def initial_state_def)
  have a: "(map_of event ''Records'' = None) =
     (lambda_handler lib env event =
        Inr (\<lparr>statusCode = 400, message = ''No SQS Records''\<rparr>,
             \<lparr>total_files = 0, total_rows = 0, printed = [], fetches = [], upserts = []\<rparr>))"
  proof (cases "map_of event ''Records''")
    case None
    then show ?thesis using absent by simp
  next
    case (Some records)
    then show ?thesis using present [of _ _ records] by fastforce
  qed
  have b: "(map_of event ''Records'' = None) =
       (\<exists>resp st. lambda_handler lib env event = Inr (resp, st) \<and> statusCode resp = 400)"
  proof (cases "map_of event ''Records''")
    case None
    then show ?thesis using absent by simp
  next
    case (Some records)
    then show ?thesis using present [of _ _ records] by fastforce
  qed
  have c: "map_of event ''Records'' = Some (JArr []) \<longrightarrow>
        lambda_handler lib env event =
          Inr (\<lparr>statusCode = 200,
                message = ''Processed 0 files with 0 rows into DynamoDB''\<rparr>,
               \<lparr>total_files = 0, total_rows = 0, printed = [], fetches = [], upserts = []\<rparr>)"
    by (simp add: lambda_handler_def initial_state_def str_nat.simps)
  have d: "\<forall>resp st. lambda_handler lib env event = Inr (resp, st) \<longrightarrow>
        map_of event ''Records'' \<noteq> None \<longrightarrow>
          statusCode resp = 200
          \<and> message resp = ''Processed '' @ str_nat (total_files st) @ '' files with ''
               @ str_nat (total_rows st) @ '' rows into DynamoDB''"
    using present by blast
  from a b c d show ?thesis
    by (intro conjI)
qed

theorem lambda_handler_status_witness:
  "map_of [(''Records'', JArr [])] ''Records'' = Some (JArr [])
   \<and> lambda_handler example_lib example_env [(''Records'', JArr [])] =
       Inr (\<lparr>statusCode = 200, message = ''Processed 0 files with 0 rows into DynamoDB''\<rparr>,
            \<lparr>total_files = 0, total_rows = 0, printed = [], fetches = [], upserts = []\<rparr>)
   \<and> lambda_handler example_lib example_env [(''Body'', JArr [])] =
       Inr (\<lparr>statusCode = 400, message = ''No SQS Records''\<rparr>,
            \<lparr>total_files = 0, total_rows = 0, printed = [], fetches = [], upserts = []\<rparr>)"
proof -
  have h: "map_of [(''Records'', JArr [])] ''Records'' = Some (JArr [])"
    by simp
  have n: "map_of [(''Body'', JArr [])] ''Records'' = None"
    by simp
  note s = lambda_handler_status [of "[(''Records'', JArr [])]" example_lib example_env]
  note t = lambda_handler_status [of "[(''Body'', JArr [])]" example_lib example_env]
  have "lambda_handler example_lib example_env [(''Records'', JArr [])] =
       Inr (\<lparr>statusCode = 200, message = ''Processed 0 files with 0 rows into DynamoDB''\<rparr>,
            \<lparr>total_files = 0, total_rows = 0, printed = [], fetches = [], upserts = []\<rparr>)"
    using s [THEN conjunct2, THEN conjunct2, THEN conjunct1] h by (rule mp)
  moreover have "lambda_handler example_lib example_env [(''Body'', JArr [])] =
       Inr (\<lparr>statusCode = 400, message = ''No SQS Records''\<rparr>,
            \<lparr>total_files = 0, total_rows = 0, printed = [], fetches = [], upserts = []\<rparr>)"
    using t [THEN conjunct1] n by (rule iffD1)
  ultimately show ?thesis
    using h by (intro conjI)
qed

lemma put_rows_json_loads:
  "put_rows lib (env\<lparr>json_loads := f\<rparr>) symbol timestamp xs sent =
   put_rows lib env symbol timestamp xs sent"
proof (induction xs arbitrary: sent)
  case Nil
  show ?case by simp
next
  case (Cons x xs)
  obtain idx r where "x = (idx, r)" by (cases x)
  then show ?case
    by (simp add: Cons.IH split: sum.splits option.splits)
qed

lemma process_csv_json_loads:
  "process_csv (env\<lparr>json_loads := f\<rparr>) bucket key = process_csv env bucket key"
  by (simp add: process_csv_def split: option.splits)

lemma write_rows_json_loads:
  "write_rows lib (env\<lparr>json_loads := f\<rparr>) symbol timestamp rows =
   write_rows lib env symbol timestamp rows"
  by (simp add: write_rows_def put_rows_json_loads split: prod.splits option.splits)

lemma process_file_json_loads:
  "process_file lib (env\<lparr>json_loads := f\<rparr>) st bucket key symbol timestamp =
   process_file lib env st bucket key symbol timestamp"
  by (simp add: process_file_def process_csv_json_loads write_rows_json_loads
      cong: sum.case_cong)

lemma process_record_cong:
  assumes "parse_record env' record = parse_record env record"
    and "\<And>st bucket key symbol timestamp.
      process_file lib env' st bucket key symbol timestamp =
      process_file lib env st bucket key symbol timestamp"
  shows "process_record lib env' st record = process_record lib env st record"
  by (simp add: process_record_def assms cong: sum.case_cong prod.case_cong)

lemma process_file_fetches:
  "fetches (process_file lib env st bucket key symbol timestamp) = fetches st @ [(bucket, key)]"
  by (simp add: process_file_def print_line_def Let_def
      split: sum.splits prod.splits option.splits)

lemma process_record_fetches:
  assumes "process_record lib env st record = Inr st'"
  shows "fetches st' = fetches st \<or>
   (\<exists>s3_record bucket key. parse_record env record = Inr s3_record
      \<and> file_reference s3_record = Inr (bucket, key)
      \<and> fetches st' = fetches st @ [(bucket, key)])"
proof (cases "parse_record env record")
  case (Inl e)
  with assms show ?thesis
    by (auto simp: process_record_def print_line_def)
next
  case (Inr s3_record)
  show ?thesis
  proof (cases "file_reference s3_record")
    case (Inl e)
    with Inr assms show ?thesis
      by (simp add: process_record_def)
  next
    case ref: (Inr bk)
    obtain bucket key where bk: "bk = (bucket, key)" by (cases bk)
    show ?thesis
    proof (cases "extract_symbol_timestamp key")
      case (Inl e)
      with Inr ref bk assms show ?thesis
        by (auto simp: process_record_def print_line_def)
    next
      case ext: (Inr sy)
      obtain symbol timestamp where "sy = (symbol, timestamp)" by (cases sy)
      with Inr ref bk ext assms
      have "st' = process_file lib env st bucket key symbol timestamp"
        by (simp add: process_record_def)
      then have "fetches st' = fetches st @ [(bucket, key)]"
        by (simp add: process_file_fetches)
      with Inr ref bk show ?thesis by blast
    qed
  qed
qed

text \<open>
  C9. When the body of a sub-message parses to an event whose \<^verbatim>\<open>Records\<close> is a list
  with at least one element, the first element alone decides what is processed: the
  record read is its \<^verbatim>\<open>s3\<close> entry, the sub-message is processed exactly as if the
  body held that element only, and at most one file is fetched, the one that element
  names.
\<close>

theorem only_first_nested_record_is_used:
  assumes "subscript_key record ''body'' = Inr (JStr body)"
    and "json_loads env body = Some ev"
    and "subscript_key ev ''Records'' = Inr (JArr (r0 # rest))"
  shows "parse_record env record = subscript_key r0 ''s3''
    \<and> process_record lib env st record =
        process_record lib
          (env\<lparr>json_loads := (json_loads env)(body \<mapsto> JObj [(''Records'', JArr [r0])])\<rparr>)
          st record
    \<and> (case process_record lib env st record of
         Inl e \<Rightarrow> True
       | Inr st' \<Rightarrow>
           fetches st' = fetches st \<or>
           (\<exists>s3_record bucket key. subscript_key r0 ''s3'' = Inr s3_record
              \<and> file_reference s3_record = Inr (bucket, key)
              \<and> fetches st' = fetches st @ [(bucket, key)]))"
proof -
  let ?env = "env\<lparr>json_loads := (json_loads env)(body \<mapsto> JObj [(''Records'', JArr [r0])])\<rparr>"
  have parse: "parse_record env record = subscript_key r0 ''s3''"
    using assms by (simp add: parse_record_def loads_def first_s3_record_def)
  have "parse_record ?env record = subscript_key r0 ''s3''"
    using assms(1) by (simp add: parse_record_def loads_def first_s3_record_def)
  with parse have "parse_record ?env record = parse_record env record"
    by simp
  then have same: "process_record lib ?env st record = process_record lib env st record"
    by (rule process_record_cong) (rule process_file_json_loads)
  have "case process_record lib env st record of
         Inl e \<Rightarrow> True
       | Inr st' \<Rightarrow>
           fetches st' = fetches st \<or>
           (\<exists>s3_record bucket key. subscript_key r0 ''s3'' = Inr s3_record
              \<and> file_reference s3_record = Inr (bucket, key)
              \<and> fetches st' = fetches st @ [(bucket, key)])"
  proof (cases "process_record lib env st record")
    case (Inl e)
    then show ?thesis by simp
  next
    case (Inr st')
    with process_record_fetches [OF Inr] parse show ?thesis by simp
  qed
  with parse same show ?thesis by simp
qed

theorem only_first_nested_record_is_used_witness:
  "subscript_key (sqs_record both_body) ''body'' = Inr (JStr both_body)
   \<and> json_loads example_env both_body = Some (JObj [(''Records'', JArr [lyft_record, uber_record])])
   \<and> subscript_key (JObj [(''Records'', JArr [lyft_record, uber_record])]) ''Records'' =
       Inr (JArr [lyft_record, uber_record])
   \<and> parse_record example_env (sqs_record both_body) = subscript_key lyft_record ''s3''
   \<and> process_record example_lib example_env initial_state (sqs_record both_body) =
       process_record example_lib
         (example_env\<lparr>json_loads :=
            (json_loads example_env)(both_body \<mapsto> JObj [(''Records'', JArr [lyft_record])])\<rparr>)
         initial_state (sqs_record both_body)
   \<and> map_sum id (\<lambda>st. (fetches st, length (upserts st)))
       (process_record example_lib example_env initial_state (sqs_record both_body)) =
       Inr ([(JStr ''stock-bucket'', JStr lyft_key)], 3)"
proof -
  have h1: "subscript_key (sqs_record both_body) ''body'' = Inr (JStr both_body)"
    by (simp add: sqs_record_def)
  have h2: "json_loads example_env both_body =
      Some (JObj [(''Records'', JArr [lyft_record, uber_record])])"
    by code_simp
  have h3: "subscript_key (JObj [(''Records'', JArr [lyft_record, uber_record])]) ''Records'' =
       Inr (JArr [lyft_record, uber_record])"
    by simp
  have ran: "map_sum id (\<lambda>st. (fetches st, length (upserts st)))
       (process_record example_lib example_env initial_state (sqs_record both_body)) =
       Inr ([(JStr ''stock-bucket'', JStr lyft_key)], 3)"
    by code_simp
  note first = only_first_nested_record_is_used
    [OF h1 h2 h3, where st = initial_state and lib = example_lib]
  from first [THEN conjunct1] first [THEN conjunct2, THEN conjunct1] h1 h2 h3 ran
  show ?thesis
    by (intro conjI)
qed

text \<open>
  C8. The keys depend on the object key and the rows only. Two runs over the same
  object key and the same rows, in whatever environments and states, that both count
  the file as processed have submitted the same items, so the same partition and sort
  keys row by row; applied to the table after the first run, the upserts of the second
  run write the same keys again and leave the table as it was.
\<close>

theorem reprocessing_targets_same_keys:
  assumes "extract_symbol_timestamp key = Inr (symbol, timestamp)"
    and "process_csv envA bucketA key = Inr rows"
    and "process_csv envB bucketB key = Inr rows"
    and "total_files (process_file lib envA stA bucketA key symbol timestamp) = Suc (total_files stA)"
    and "total_files (process_file lib envB stB bucketB key symbol timestamp) = Suc (total_files stB)"
  shows "\<exists>sentA sentB.
      upserts (process_file lib envA stA bucketA key symbol timestamp) = upserts stA @ sentA
      \<and> upserts (process_file lib envB stB bucketB key symbol timestamp) = upserts stB @ sentB
      \<and> length sentA = length rows
      \<and> map item_key sentB = map item_key sentA
      \<and> sentB = sentA
      \<and> table_after (table_after t sentA) sentB = table_after t sentA"
proof -
  obtain sentA where wA: "write_rows lib envA symbol timestamp rows = (sentA, None)"
    and uA: "upserts (process_file lib envA stA bucketA key symbol timestamp) = upserts stA @ sentA"
    using process_file_counted [OF assms(2,4)] by blast
  obtain sentB where wB: "write_rows lib envB symbol timestamp rows = (sentB, None)"
    and uB: "upserts (process_file lib envB stB bucketB key symbol timestamp) = upserts stB @ sentB"
    using process_file_counted [OF assms(3,5)] by blast
  have "map Inr sentA = (map Inr sentB :: (error + item) list)"
    using write_rows_None [OF wA] write_rows_None [OF wB] by simp
  then have same: "sentB = sentA"
    by simp
  have len: "length sentA = length rows"
    using wA by (rule write_rows_items)
  show ?thesis
  proof (intro exI conjI)
    show "upserts (process_file lib envA stA bucketA key symbol timestamp) = upserts stA @ sentA"
      by (fact uA)
    show "upserts (process_file lib envB stB bucketB key symbol timestamp) = upserts stB @ sentB"
      by (fact uB)
    show "length sentA = length rows"
      by (fact len)
    show "map item_key sentB = map item_key sentA"
      using same by simp
    show "sentB = sentA"
      by (fact same)
    show "table_after (table_after t sentA) sentB = table_after t sentA"
      using same by (simp add: table_after_twice)
  qed
qed

theorem reprocessing_targets_same_keys_witness:
  "extract_symbol_timestamp (JStr lyft_key) = Inr (''LYFT'', ''2025-11-17_15-26-55'')
   \<and> process_csv example_env (JStr ''stock-bucket'') (JStr lyft_key) = Inr (rows_of_lines lyft_lines)
   \<and> total_files (process_file example_lib example_env initial_state (JStr ''stock-bucket'') (JStr lyft_key)
        ''LYFT'' ''2025-11-17_15-26-55'') = Suc (total_files initial_state)
   \<and> total_files (process_file example_lib example_env
        (process_file example_lib example_env initial_state (JStr ''stock-bucket'') (JStr lyft_key)
           ''LYFT'' ''2025-11-17_15-26-55'')
        (JStr ''stock-bucket'') (JStr lyft_key) ''LYFT'' ''2025-11-17_15-26-55'') =
       Suc (total_files (process_file example_lib example_env initial_state (JStr ''stock-bucket'')
         (JStr lyft_key) ''LYFT'' ''2025-11-17_15-26-55''))
   \<and> (\<exists>sentA sentB.
        upserts (process_file example_lib example_env initial_state (JStr ''stock-bucket'') (JStr lyft_key)
          ''LYFT'' ''2025-11-17_15-26-55'') = upserts initial_state @ sentA
        \<and> upserts (process_file example_lib example_env
            (process_file example_lib example_env initial_state (JStr ''stock-bucket'') (JStr lyft_key)
               ''LYFT'' ''2025-11-17_15-26-55'')
            (JStr ''stock-bucket'') (JStr lyft_key) ''LYFT'' ''2025-11-17_15-26-55'') =
          upserts (process_file example_lib example_env initial_state (JStr ''stock-bucket'') (JStr lyft_key)
            ''LYFT'' ''2025-11-17_15-26-55'') @ sentB
        \<and> length sentA = length (rows_of_lines lyft_lines)
        \<and> map item_key sentB = map item_key sentA
        \<and> sentB = sentA
        \<and> table_after (table_after Map.empty sentA) sentB = table_after Map.empty sentA)"
proof -
  have h1: "extract_symbol_timestamp (JStr lyft_key) = Inr (''LYFT'', ''2025-11-17_15-26-55'')"
    by code_simp
  have h2: "process_csv example_env (JStr ''stock-bucket'') (JStr lyft_key) =
      Inr (rows_of_lines lyft_lines)"
    by (rule example_lyft_csv)
  have h4: "total_files (process_file example_lib example_env initial_state (JStr ''stock-bucket'')
      (JStr lyft_key) ''LYFT'' ''2025-11-17_15-26-55'') = Suc (total_files initial_state)"
    by code_simp
  have h5: "total_files (process_file example_lib example_env
        (process_file example_lib example_env initial_state (JStr ''stock-bucket'') (JStr lyft_key)
           ''LYFT'' ''2025-11-17_15-26-55'')
        (JStr ''stock-bucket'') (JStr lyft_key) ''LYFT'' ''2025-11-17_15-26-55'') =
       Suc (total_files (process_file example_lib example_env initial_state (JStr ''stock-bucket'')
         (JStr lyft_key) ''LYFT'' ''2025-11-17_15-26-55''))"
    by code_simp
  from reprocessing_targets_same_keys [OF h1 h2 h2 h4 h5, where t = Map.empty] h1 h2 h4 h5
  show ?thesis
    by (intro conjI)
qed


end
